theory Spec2Isabelle
  imports Main "HOL-Library.Word"
begin

section \<open>Solidity values, errors and checked arithmetic\<close>

text \<open>
  The three contracts of the repository (PolicyEngine, AgentRegistry, CrossChainExecutor) are
  written for Solidity 0.8.19. A \<open>uint256\<close>, a \<open>bytes32\<close> and an \<open>address\<close> are
  machine words; a storage \<open>mapping\<close> is a total function whose default value is zero.
  An external call either returns or reverts: a revert is a value \<open>Inl e\<close>, and the EVM
  discards every storage write the reverted call made.
\<close>

type_synonym uint256 = "256 word"
type_synonym bytes32 = "256 word"
type_synonym address = "160 word"
type_synonym bytes = "8 word list"

datatype error =
    SystemPaused
  | AgentIsPaused bytes32
  | CircuitBreakerActive
  | UnauthorizedAdmin
  | PolicyViolation string
  | AgentAlreadyExists
  | AgentNotFound
  | AgentInactive
  | UnauthorizedCaller
  | InvalidWalletAddress
  | WalletAlreadyBound
  | IntentAlreadyExists
  | InvalidNonce
  | IntentExpired
  | UnauthorizedRelayer
  | IntentNotFound
  | IntentAlreadyExecuted
  | TimelockNotExpired
  | InvalidSignature
  | Require string
  | Panic
  | DecodeError
  | TransferFailed

text \<open>
  \<open>Require msg\<close> is the \<open>Error(string)\<close> of a failed \<open>require\<close> or of \<open>revert("...")\<close>;
  \<open>Panic\<close> is the arithmetic panic of checked \<open>+\<close>, \<open>-\<close>, \<open>*\<close> and \<open>++\<close> (Solidity 0.8);
  \<open>DecodeError\<close> is a failed \<open>abi.decode\<close>; \<open>TransferFailed\<close> a failed \<open>transfer\<close>.
\<close>

definition checked_add :: "uint256 \<Rightarrow> uint256 \<Rightarrow> error + uint256" where
  "checked_add a b = (if unat a + unat b < 2 ^ 256 then Inr (a + b) else Inl Panic)"

definition checked_sub :: "uint256 \<Rightarrow> uint256 \<Rightarrow> error + uint256" where
  "checked_sub a b = (if unat b \<le> unat a then Inr (a - b) else Inl Panic)"

definition checked_mul :: "uint256 \<Rightarrow> uint256 \<Rightarrow> error + uint256" where
  "checked_mul a b = (if unat a * unat b < 2 ^ 256 then Inr (a * b) else Inl Panic)"

text \<open>
  What a transaction leaves behind: the state the call returned, or the state before the
  call when it reverted.
\<close>

definition rollback :: "'s \<Rightarrow> (error + 'a) \<times> 's \<Rightarrow> (error + 'a) \<times> 's" where
  "rollback s r = (case fst r of Inl e \<Rightarrow> (Inl e, s) | Inr a \<Rightarrow> r)"

definition state_after :: "'s \<Rightarrow> error + 's \<Rightarrow> 's" where
  "state_after s r = (case r of Inl e \<Rightarrow> s | Inr s' \<Rightarrow> s')"

section \<open>PolicyEngine\<close>

record RollingWindow =
  dailySpent :: uint256
  dailyWindowStart :: uint256
  hourlyTxCount :: uint256
  hourlyWindowStart :: uint256

record CircuitBreakerConfig =
  suspiciousActivityThreshold :: uint256
  cooldownPeriod :: uint256
  tripped :: bool
  trippedAt :: uint256

record PolicyEngine =
  rollingWindows :: "bytes32 \<Rightarrow> RollingWindow"
  circuitBreaker :: CircuitBreakerConfig
  paused :: bool
  emergencyAdmin :: address
  agentPaused :: "bytes32 \<Rightarrow> bool"

definition ONE_DAY :: uint256 where
  "ONE_DAY = 86400"

definition ONE_HOUR :: uint256 where
  "ONE_HOUR = 3600"

text \<open>The constructor: the deployer is the admin, the breaker is not tripped, cooldown one hour.\<close>

definition PolicyEngine_constructor :: "address \<Rightarrow> PolicyEngine" where
  "PolicyEngine_constructor sender =
     \<lparr> rollingWindows = (\<lambda>_. \<lparr> dailySpent = 0, dailyWindowStart = 0,
                                  hourlyTxCount = 0, hourlyWindowStart = 0 \<rparr>),
       circuitBreaker = \<lparr> suspiciousActivityThreshold = 10, cooldownPeriod = ONE_HOUR,
                           tripped = False, trippedAt = 0 \<rparr>,
       paused = False,
       emergencyAdmin = sender,
       agentPaused = (\<lambda>_. False) \<rparr>"

text \<open>\<open>_checkCircuitBreaker\<close>: trips the breaker when it is not tripped yet.\<close>

definition checkCircuitBreaker :: "uint256 \<Rightarrow> PolicyEngine \<Rightarrow> PolicyEngine" where
  "checkCircuitBreaker now s =
     (if \<not> tripped (circuitBreaker s)
      then s\<lparr>circuitBreaker := (circuitBreaker s)\<lparr>tripped := True, trippedAt := now\<rparr>\<rparr>
      else s)"

text \<open>The circuit-breaker gate of \<open>checkPolicy\<close>, with the auto-reset after the cooldown.\<close>

definition breakerGate :: "uint256 \<Rightarrow> PolicyEngine \<Rightarrow> error + PolicyEngine" where
  "breakerGate now s =
     (if tripped (circuitBreaker s) then
        (case checked_add (trippedAt (circuitBreaker s)) (cooldownPeriod (circuitBreaker s)) of
           Inl e \<Rightarrow> Inl e
         | Inr until \<Rightarrow>
             if now < until then Inl CircuitBreakerActive
             else Inr (s\<lparr>circuitBreaker := (circuitBreaker s)\<lparr>tripped := False\<rparr>\<rparr>))
      else Inr s)"

text \<open>The whitelist loop: scans the array and stops at the first match.\<close>

fun isWhitelisted :: "address list \<Rightarrow> address \<Rightarrow> bool" where
  "isWhitelisted [] recipient = False"
| "isWhitelisted (a # rest) recipient = (if a = recipient then True else isWhitelisted rest recipient)"

definition setWindow :: "bytes32 \<Rightarrow> RollingWindow \<Rightarrow> PolicyEngine \<Rightarrow> PolicyEngine" where
  "setWindow agentId w s = s\<lparr>rollingWindows := (rollingWindows s)(agentId := w)\<rparr>"

text \<open>"Update daily window if needed" and "Update hourly window if needed".\<close>

definition dailyWindowUpdate :: "uint256 \<Rightarrow> bytes32 \<Rightarrow> PolicyEngine \<Rightarrow> error + PolicyEngine" where
  "dailyWindowUpdate now agentId s =
     (let w = rollingWindows s agentId in
      case checked_add (dailyWindowStart w) ONE_DAY of
        Inl e \<Rightarrow> Inl e
      | Inr boundary \<Rightarrow>
          if boundary \<le> now
          then Inr (setWindow agentId (w\<lparr>dailySpent := 0, dailyWindowStart := now\<rparr>) s)
          else Inr s)"

definition hourlyWindowUpdate :: "uint256 \<Rightarrow> bytes32 \<Rightarrow> PolicyEngine \<Rightarrow> error + PolicyEngine" where
  "hourlyWindowUpdate now agentId s =
     (let w = rollingWindows s agentId in
      case checked_add (hourlyWindowStart w) ONE_HOUR of
        Inl e \<Rightarrow> Inl e
      | Inr boundary \<Rightarrow>
          if boundary \<le> now
          then Inr (setWindow agentId (w\<lparr>hourlyTxCount := 0, hourlyWindowStart := now\<rparr>) s)
          else Inr s)"

text \<open>"Update counters": \<open>window.dailySpent += value; window.hourlyTxCount++\<close>.\<close>

definition updateCounters :: "bytes32 \<Rightarrow> uint256 \<Rightarrow> PolicyEngine \<Rightarrow> (error + bool) \<times> PolicyEngine" where
  "updateCounters agentId value s =
     (let w = rollingWindows s agentId in
      case checked_add (dailySpent w) value of
        Inl e \<Rightarrow> (Inl e, s)
      | Inr spent \<Rightarrow>
          let s1 = setWindow agentId (w\<lparr>dailySpent := spent\<rparr>) s in
          (case checked_add (hourlyTxCount w) 1 of
             Inl e \<Rightarrow> (Inl e, s1)
           | Inr cnt \<Rightarrow>
               (Inr True, setWindow agentId (w\<lparr>dailySpent := spent, hourlyTxCount := cnt\<rparr>) s)))"

text \<open>
  The body of \<open>checkPolicy\<close>, statement by statement. The second component is the storage
  in flight: at a revert it is what the call had written so far, which the EVM then discards.
\<close>

definition checkPolicy_run ::
  "uint256 \<Rightarrow> bytes32 \<Rightarrow> uint256 \<Rightarrow> address \<Rightarrow> uint256 \<Rightarrow> uint256 \<Rightarrow> uint256 \<Rightarrow> address list
     \<Rightarrow> PolicyEngine \<Rightarrow> (error + bool) \<times> PolicyEngine" where
  "checkPolicy_run now agentId value recipient maxSpendPerDay maxTxPerHour maxValuePerTx
       whitelistedAddresses s =
     (if paused s then (Inl SystemPaused, s)
      else if agentPaused s agentId then (Inl (AgentIsPaused agentId), s)
      else (case breakerGate now s of
        Inl e \<Rightarrow> (Inl e, s)
      | Inr s1 \<Rightarrow>
          (if maxValuePerTx < value then (Inl (PolicyViolation ''Exceeds maxValuePerTx''), s1)
           else (case dailyWindowUpdate now agentId s1 of
             Inl e \<Rightarrow> (Inl e, s1)
           | Inr s2 \<Rightarrow>
               (case checked_add (dailySpent (rollingWindows s2 agentId)) value of
                  Inl e \<Rightarrow> (Inl e, s2)
                | Inr newSpent \<Rightarrow>
                    (if maxSpendPerDay < newSpent
                     then (Inl (PolicyViolation ''Exceeds maxSpendPerDay''), s2)
                     else (case hourlyWindowUpdate now agentId s2 of
                       Inl e \<Rightarrow> (Inl e, s2)
                     | Inr s3 \<Rightarrow>
                         (if maxTxPerHour \<le> hourlyTxCount (rollingWindows s3 agentId)
                          then (Inl (PolicyViolation ''Exceeds maxTxPerHour''),
                                checkCircuitBreaker now s3)
                          else if whitelistedAddresses \<noteq> []
                                  \<and> \<not> isWhitelisted whitelistedAddresses recipient
                          then (Inl (PolicyViolation ''Recipient not whitelisted''), s3)
                          else updateCounters agentId value s3))))))))"

text \<open>The external function \<open>checkPolicy\<close>: the body run as one call.\<close>

definition checkPolicy ::
  "uint256 \<Rightarrow> bytes32 \<Rightarrow> uint256 \<Rightarrow> address \<Rightarrow> uint256 \<Rightarrow> uint256 \<Rightarrow> uint256 \<Rightarrow> address list
     \<Rightarrow> PolicyEngine \<Rightarrow> (error + bool) \<times> PolicyEngine" where
  "checkPolicy now agentId value recipient maxSpendPerDay maxTxPerHour maxValuePerTx
       whitelistedAddresses s =
     rollback s (checkPolicy_run now agentId value recipient maxSpendPerDay maxTxPerHour
                   maxValuePerTx whitelistedAddresses s)"

definition pause :: "address \<Rightarrow> PolicyEngine \<Rightarrow> error + PolicyEngine" where
  "pause sender s = (if sender \<noteq> emergencyAdmin s then Inl UnauthorizedAdmin
                     else Inr (s\<lparr>paused := True\<rparr>))"

definition unpause :: "address \<Rightarrow> PolicyEngine \<Rightarrow> error + PolicyEngine" where
  "unpause sender s = (if sender \<noteq> emergencyAdmin s then Inl UnauthorizedAdmin
                       else Inr (s\<lparr>paused := False\<rparr>))"

definition pauseAgent :: "address \<Rightarrow> bytes32 \<Rightarrow> PolicyEngine \<Rightarrow> error + PolicyEngine" where
  "pauseAgent sender agentId s =
     (if sender \<noteq> emergencyAdmin s then Inl UnauthorizedAdmin
      else Inr (s\<lparr>agentPaused := (agentPaused s)(agentId := True)\<rparr>))"

definition unpauseAgent :: "address \<Rightarrow> bytes32 \<Rightarrow> PolicyEngine \<Rightarrow> error + PolicyEngine" where
  "unpauseAgent sender agentId s =
     (if sender \<noteq> emergencyAdmin s then Inl UnauthorizedAdmin
      else Inr (s\<lparr>agentPaused := (agentPaused s)(agentId := False)\<rparr>))"

section \<open>AgentRegistry\<close>

record Agent =
  owner :: address
  wallet :: address
  publicKey :: bytes
  metadataCID :: string
  active :: bool
  registeredAt :: uint256

record PolicyConfig =
  maxSpendPerDay :: uint256
  maxTxPerHour :: uint256
  maxValuePerTx :: uint256
  whitelistedAddresses :: "address list"

record AgentRegistry =
  agents :: "bytes32 \<Rightarrow> Agent"
  policies :: "bytes32 \<Rightarrow> PolicyConfig"
  walletToAgentId :: "address \<Rightarrow> bytes32"

text \<open>A freshly deployed registry: every mapping holds the zero value.\<close>

definition AgentRegistry_constructor :: AgentRegistry where
  "AgentRegistry_constructor =
     \<lparr> agents = (\<lambda>_. \<lparr> owner = 0, wallet = 0, publicKey = [], metadataCID = [],
                          active = False, registeredAt = 0 \<rparr>),
       policies = (\<lambda>_. \<lparr> maxSpendPerDay = 0, maxTxPerHour = 0, maxValuePerTx = 0,
                            whitelistedAddresses = [] \<rparr>),
       walletToAgentId = (\<lambda>_. 0) \<rparr>"

text \<open>The modifier \<open>onlyOwner\<close>: the error it reverts with, if any.\<close>

definition onlyOwner :: "address \<Rightarrow> bytes32 \<Rightarrow> AgentRegistry \<Rightarrow> error option" where
  "onlyOwner sender aid s =
     (if owner (agents s aid) = 0 then Some AgentNotFound
      else if sender \<noteq> owner (agents s aid) then Some UnauthorizedCaller
      else None)"

definition registerAgent ::
  "address \<Rightarrow> uint256 \<Rightarrow> bytes32 \<Rightarrow> address \<Rightarrow> bytes \<Rightarrow> string \<Rightarrow> PolicyConfig
     \<Rightarrow> AgentRegistry \<Rightarrow> error + AgentRegistry" where
  "registerAgent sender now aid w pk cid pol s =
     (if wallet (agents s aid) \<noteq> 0 then Inl AgentAlreadyExists
      else if w = 0 then Inl InvalidWalletAddress
      else if walletToAgentId s w \<noteq> 0 then Inl WalletAlreadyBound
      else Inr (s\<lparr> agents := (agents s)(aid :=
                       \<lparr> owner = sender, wallet = w, publicKey = pk, metadataCID = cid,
                         active = True, registeredAt = now \<rparr>),
                   policies := (policies s)(aid := pol),
                   walletToAgentId := (walletToAgentId s)(w := aid) \<rparr>))"

definition updateMetadata :: "address \<Rightarrow> bytes32 \<Rightarrow> string \<Rightarrow> AgentRegistry \<Rightarrow> error + AgentRegistry" where
  "updateMetadata sender aid cid s =
     (case onlyOwner sender aid s of
        Some e \<Rightarrow> Inl e
      | None \<Rightarrow> Inr (s\<lparr>agents := (agents s)(aid := (agents s aid)\<lparr>metadataCID := cid\<rparr>)\<rparr>))"

definition updatePolicy :: "address \<Rightarrow> bytes32 \<Rightarrow> PolicyConfig \<Rightarrow> AgentRegistry \<Rightarrow> error + AgentRegistry" where
  "updatePolicy sender aid pol s =
     (case onlyOwner sender aid s of
        Some e \<Rightarrow> Inl e
      | None \<Rightarrow> Inr (s\<lparr>policies := (policies s)(aid := pol)\<rparr>))"

definition deactivateAgent :: "address \<Rightarrow> bytes32 \<Rightarrow> AgentRegistry \<Rightarrow> error + AgentRegistry" where
  "deactivateAgent sender aid s =
     (case onlyOwner sender aid s of
        Some e \<Rightarrow> Inl e
      | None \<Rightarrow> Inr (s\<lparr>agents := (agents s)(aid := (agents s aid)\<lparr>active := False\<rparr>)\<rparr>))"

definition reactivateAgent :: "address \<Rightarrow> bytes32 \<Rightarrow> AgentRegistry \<Rightarrow> error + AgentRegistry" where
  "reactivateAgent sender aid s =
     (case onlyOwner sender aid s of
        Some e \<Rightarrow> Inl e
      | None \<Rightarrow> Inr (s\<lparr>agents := (agents s)(aid := (agents s aid)\<lparr>active := True\<rparr>)\<rparr>))"

definition getAgent :: "AgentRegistry \<Rightarrow> bytes32 \<Rightarrow> error + Agent" where
  "getAgent s aid = (if wallet (agents s aid) = 0 then Inl AgentNotFound else Inr (agents s aid))"

definition isAgentActive :: "AgentRegistry \<Rightarrow> bytes32 \<Rightarrow> bool" where
  "isAgentActive s aid = active (agents s aid)"

definition getAgentIdByWallet :: "AgentRegistry \<Rightarrow> address \<Rightarrow> bytes32" where
  "getAgentIdByWallet s w = walletToAgentId s w"

section \<open>CrossChainExecutor\<close>

datatype Status = Pending | Validated | Submitted | Executed | Disputed | Failed

record IntentData =
  intentId :: bytes32
  agentId :: bytes32
  srcChainId :: uint256
  destChainId :: uint256
  actionHash :: bytes32
  nonce :: uint256
  expiry :: uint256
  valueWei :: uint256
  recipient :: address

text \<open>
  The struct \<open>Intent\<close> has the nine fields of \<open>IntentData\<close>, in the same order, and
  three more. The field \<open>value\<close> is written \<open>valueWei\<close>.
\<close>

record Intent = IntentData +
  relayer :: address
  submittedAt :: uint256
  status :: Status

record RelayerInfo =
  relayerAddress :: address
  stakeAmount :: uint256
  reputationScore :: uint256
  intentsProcessed :: uint256
  successfulExecutions :: uint256
  isActive :: bool
  lastActive :: uint256

text \<open>
  The contract's storage. \<open>reentrancy_status\<close> is the guard variable \<open>_status\<close>. The
  bridge bookkeeping (\<open>chainBridges\<close>, \<open>bridgeMessages\<close>) is read and written by the bridge
  functions only and is left out with them.
\<close>

record CrossChainExecutor =
  reentrancy_status :: uint256
  intents :: "bytes32 \<Rightarrow> Intent"
  agentNonces :: "bytes32 \<Rightarrow> uint256"
  authorizedRelayers :: "address \<Rightarrow> bool"
  relayerInfo :: "address \<Rightarrow> RelayerInfo"
  activeRelayers :: "address list"
  agentRegistry :: address
  policyEngine :: address

definition NOT_ENTERED :: uint256 where
  "NOT_ENTERED = 1"

definition ENTERED :: uint256 where
  "ENTERED = 2"

definition TIMELOCK_DURATION :: uint256 where
  "TIMELOCK_DURATION = 60"

definition zeroIntent :: Intent where
  "zeroIntent = \<lparr> intentId = 0, agentId = 0, srcChainId = 0, destChainId = 0, actionHash = 0,
                  nonce = 0, expiry = 0, valueWei = 0, recipient = 0,
                  relayer = 0, submittedAt = 0, status = Pending \<rparr>"

definition zeroRelayerInfo :: RelayerInfo where
  "zeroRelayerInfo = \<lparr> relayerAddress = 0, stakeAmount = 0, reputationScore = 0,
                       intentsProcessed = 0, successfulExecutions = 0, isActive = False,
                       lastActive = 0 \<rparr>"

definition CrossChainExecutor_constructor :: "address \<Rightarrow> address \<Rightarrow> CrossChainExecutor" where
  "CrossChainExecutor_constructor reg pol =
     \<lparr> reentrancy_status = NOT_ENTERED,
       intents = (\<lambda>_. zeroIntent),
       agentNonces = (\<lambda>_. 0),
       authorizedRelayers = (\<lambda>_. False),
       relayerInfo = (\<lambda>_. zeroRelayerInfo),
       activeRelayers = [],
       agentRegistry = reg,
       policyEngine = pol \<rparr>"

text \<open>The modifier \<open>nonReentrant\<close> around a function body.\<close>

definition nonReentrant ::
  "(CrossChainExecutor \<Rightarrow> error + 'a \<times> CrossChainExecutor) \<Rightarrow> CrossChainExecutor
     \<Rightarrow> error + 'a \<times> CrossChainExecutor" where
  "nonReentrant body ex =
     (if reentrancy_status ex = ENTERED then Inl (Require ''ReentrancyGuard: reentrant call'')
      else case body (ex\<lparr>reentrancy_status := ENTERED\<rparr>) of
        Inl e \<Rightarrow> Inl e
      | Inr (a, ex') \<Rightarrow> Inr (a, ex'\<lparr>reentrancy_status := NOT_ENTERED\<rparr>))"

text \<open>
  \<open>verifyIntentSignature\<close>. The EIP-712 digest of the intent and \<open>ecrecover\<close> on the split
  signature are one parameter \<open>recover\<close>: the address recovered from the intent and the 65
  signature bytes, zero when recovery fails. \<open>splitSignature\<close> requires 65 bytes.
\<close>

definition verifyIntentSignature ::
  "(IntentData \<Rightarrow> bytes \<Rightarrow> address) \<Rightarrow> IntentData \<Rightarrow> bytes \<Rightarrow> error + address" where
  "verifyIntentSignature recover intent signature =
     (if length signature \<noteq> 65 then Inl (Require ''Invalid signature length'')
      else let signer = recover intent signature in
        if signer = 0 then Inl (Require ''Invalid signature'') else Inr signer)"

text \<open>The intent \<open>emitIntent\<close> stores: the descriptor, no relayer, not submitted, Pending.\<close>

definition newIntent :: "IntentData \<Rightarrow> Intent" where
  "newIntent intent =
     \<lparr> intentId = intentId intent, agentId = agentId intent, srcChainId = srcChainId intent,
       destChainId = destChainId intent, actionHash = actionHash intent, nonce = nonce intent,
       expiry = expiry intent, valueWei = valueWei intent, recipient = recipient intent,
       relayer = 0, submittedAt = 0, status = Pending \<rparr>"

text \<open>
  The body of \<open>emitIntent\<close>. The registry is only read; the policy engine is called with the
  limits the source hard-codes (1 ether a day, 10 transactions an hour, 0.1 ether a
  transaction, no whitelist), and its revert is the revert of the whole call.
\<close>

definition emitIntent_body ::
  "(IntentData \<Rightarrow> bytes \<Rightarrow> address) \<Rightarrow> uint256 \<Rightarrow> AgentRegistry \<Rightarrow> IntentData \<Rightarrow> bytes
     \<Rightarrow> PolicyEngine \<Rightarrow> CrossChainExecutor \<Rightarrow> error + PolicyEngine \<times> CrossChainExecutor" where
  "emitIntent_body recover now reg intent signature pe ex =
     (if intentId (intents ex (intentId intent)) \<noteq> 0 then Inl IntentAlreadyExists
      else if expiry intent < now then Inl IntentExpired
      else if nonce intent \<noteq> agentNonces ex (agentId intent) then Inl InvalidNonce
      else (case verifyIntentSignature recover intent signature of
        Inl e \<Rightarrow> Inl e
      | Inr signer \<Rightarrow>
          (if \<not> isAgentActive reg (agentId intent) then Inl (Require ''Agent not active'')
           else (case getAgent reg (agentId intent) of
             Inl e \<Rightarrow> Inl e
           | Inr agent \<Rightarrow>
               (if signer \<noteq> wallet agent then Inl (Require ''Invalid agent signature'')
                else (case checkPolicy now (agentId intent) (valueWei intent) (recipient intent)
                             1000000000000000000 10 100000000000000000 [] pe of
                   (Inl e, pe') \<Rightarrow> Inl e
                 | (Inr approved, pe') \<Rightarrow>
                     (if \<not> approved then Inl (Require ''Policy check failed'')
                      else (case checked_add (agentNonces ex (agentId intent)) 1 of
                        Inl e \<Rightarrow> Inl e
                      | Inr n' \<Rightarrow>
                          Inr (pe', ex\<lparr> intents := (intents ex)(intentId intent := newIntent intent),
                                         agentNonces := (agentNonces ex)(agentId intent := n') \<rparr>)))))))))"

definition emitIntent ::
  "(IntentData \<Rightarrow> bytes \<Rightarrow> address) \<Rightarrow> uint256 \<Rightarrow> AgentRegistry \<Rightarrow> IntentData \<Rightarrow> bytes
     \<Rightarrow> PolicyEngine \<Rightarrow> CrossChainExecutor \<Rightarrow> error + PolicyEngine \<times> CrossChainExecutor" where
  "emitIntent recover now reg intent signature pe ex =
     nonReentrant (emitIntent_body recover now reg intent signature pe) ex"

definition submitIntent :: "address \<Rightarrow> uint256 \<Rightarrow> bytes32 \<Rightarrow> CrossChainExecutor \<Rightarrow> error + CrossChainExecutor" where
  "submitIntent sender now iid ex =
     (if \<not> authorizedRelayers ex sender then Inl UnauthorizedRelayer
      else if intentId (intents ex iid) = 0 then Inl IntentNotFound
      else if status (intents ex iid) \<noteq> Pending then Inl IntentAlreadyExecuted
      else Inr (ex\<lparr>intents := (intents ex)(iid :=
                  (intents ex iid)\<lparr>relayer := sender, submittedAt := now, status := Submitted\<rparr>)\<rparr>))"

text \<open>
  The execution data, as \<open>abi.decode(executionData, (string, address, uint256, bytes))\<close>
  reads it; \<open>executeIntent\<close> takes \<open>None\<close> for bytes that do not decode.
\<close>

record ExecutionPayload =
  action :: string
  targetAddress :: address
  amount :: uint256
  payloadData :: bytes

text \<open>
  The body of \<open>executeIntent\<close>. \<open>keccak256\<close> of a packed string is the parameter \<open>keccak\<close>.
\<close>

definition executeIntent_body ::
  "(string \<Rightarrow> bytes32) \<Rightarrow> uint256 \<Rightarrow> bytes32 \<Rightarrow> ExecutionPayload option
     \<Rightarrow> CrossChainExecutor \<Rightarrow> error + unit \<times> CrossChainExecutor" where
  "executeIntent_body keccak now iid executionData ex =
     (if intentId (intents ex iid) = 0 then Inl IntentNotFound
      else if status (intents ex iid) \<noteq> Submitted then Inl IntentAlreadyExecuted
      else (case checked_add (submittedAt (intents ex iid)) TIMELOCK_DURATION of
        Inl e \<Rightarrow> Inl e
      | Inr unlock \<Rightarrow>
          (if now < unlock then Inl TimelockNotExpired
           else (case executionData of
             None \<Rightarrow> Inl DecodeError
           | Some p \<Rightarrow>
               (if keccak (action p) \<noteq> actionHash (intents ex iid)
                then Inl (Require ''Action mismatch'')
                else if targetAddress p \<noteq> recipient (intents ex iid)
                then Inl (Require ''Recipient mismatch'')
                else if amount p \<noteq> valueWei (intents ex iid)
                then Inl (Require ''Amount mismatch'')
                else if keccak (action p) = keccak ''transfer''
                then Inr ((), ex\<lparr>intents := (intents ex)(iid :=
                                    (intents ex iid)\<lparr>status := Executed\<rparr>)\<rparr>)
                else if keccak (action p) = keccak ''call''
                then Inr ((), ex\<lparr>intents := (intents ex)(iid :=
                                    (intents ex iid)\<lparr>status := Executed\<rparr>)\<rparr>)
                else Inl (Require ''Unsupported action''))))))"

definition executeIntent ::
  "(string \<Rightarrow> bytes32) \<Rightarrow> uint256 \<Rightarrow> bytes32 \<Rightarrow> ExecutionPayload option
     \<Rightarrow> CrossChainExecutor \<Rightarrow> error + unit \<times> CrossChainExecutor" where
  "executeIntent keccak now iid executionData ex =
     nonReentrant (executeIntent_body keccak now iid executionData) ex"

definition disputeIntent :: "bytes32 \<Rightarrow> string \<Rightarrow> CrossChainExecutor \<Rightarrow> error + CrossChainExecutor" where
  "disputeIntent iid reason ex =
     (if intentId (intents ex iid) = 0 then Inl IntentNotFound
      else Inr (ex\<lparr>intents := (intents ex)(iid := (intents ex iid)\<lparr>status := Disputed\<rparr>)\<rparr>))"

text \<open>\<open>owner()\<close> returns the registry's address.\<close>

definition authorizeRelayer :: "address \<Rightarrow> address \<Rightarrow> CrossChainExecutor \<Rightarrow> error + CrossChainExecutor" where
  "authorizeRelayer sender r ex =
     (if sender \<noteq> agentRegistry ex then Inl (Require ''Only owner can authorize relayers'')
      else if r = 0 then Inl (Require ''Invalid relayer address'')
      else Inr (ex\<lparr>authorizedRelayers := (authorizedRelayers ex)(r := True)\<rparr>))"

definition revokeRelayer :: "address \<Rightarrow> address \<Rightarrow> CrossChainExecutor \<Rightarrow> error + CrossChainExecutor" where
  "revokeRelayer sender r ex =
     (if sender \<noteq> agentRegistry ex then Inl (Require ''Only owner can revoke relayers'')
      else Inr (ex\<lparr>authorizedRelayers := (authorizedRelayers ex)(r := False)\<rparr>))"

definition getIntent :: "CrossChainExecutor \<Rightarrow> bytes32 \<Rightarrow> error + Intent" where
  "getIntent ex iid = (if intentId (intents ex iid) = 0 then Inl IntentNotFound else Inr (intents ex iid))"

definition getNonce :: "CrossChainExecutor \<Rightarrow> bytes32 \<Rightarrow> uint256" where
  "getNonce ex aid = agentNonces ex aid"

subsection \<open>Relayer directory\<close>

definition registerRelayer ::
  "address \<Rightarrow> uint256 \<Rightarrow> uint256 \<Rightarrow> uint256 \<Rightarrow> CrossChainExecutor \<Rightarrow> error + CrossChainExecutor" where
  "registerRelayer sender now msgValue stake ex =
     (if stake < 100000000000000000 then Inl (Require ''Minimum stake is 0.1 ETH'')
      else if msgValue < stake then Inl (Require ''Insufficient stake amount'')
      else if isActive (relayerInfo ex sender) then Inl (Require ''Already registered'')
      else Inr (ex\<lparr> relayerInfo := (relayerInfo ex)(sender :=
                       \<lparr> relayerAddress = sender, stakeAmount = stake, reputationScore = 100,
                         intentsProcessed = 0, successfulExecutions = 0, isActive = True,
                         lastActive = now \<rparr>),
                    activeRelayers := activeRelayers ex @ [sender] \<rparr>))"

text \<open>
  The removal loop of \<open>unregisterRelayer\<close>, from index \<open>i\<close>: the first entry equal to the
  caller is overwritten with the last entry, the array is popped, and the loop stops.
\<close>

function removeLoop :: "nat \<Rightarrow> address \<Rightarrow> address list \<Rightarrow> address list" where
  "removeLoop i who xs =
     (if i < length xs
      then (if xs ! i = who then butlast (xs[i := last xs]) else removeLoop (i + 1) who xs)
      else xs)"
  by pat_completeness auto
termination
  by (relation "measure (\<lambda>(i, who, xs). length xs - i)") auto

declare removeLoop.simps [simp del]

text \<open>
  \<open>unregisterRelayer\<close>; whether the final \<open>transfer\<close> of the stake to the caller succeeds
  is the input \<open>transferOk\<close>.
\<close>

definition unregisterRelayer :: "address \<Rightarrow> bool \<Rightarrow> CrossChainExecutor \<Rightarrow> error + CrossChainExecutor" where
  "unregisterRelayer sender transferOk ex =
     (if \<not> isActive (relayerInfo ex sender) then Inl (Require ''Not registered'')
      else if \<not> transferOk then Inl TransferFailed
      else Inr (ex\<lparr> activeRelayers := removeLoop 0 sender (activeRelayers ex),
                    relayerInfo := (relayerInfo ex)(sender :=
                       (relayerInfo ex sender)\<lparr>isActive := False, stakeAmount := 0\<rparr>) \<rparr>))"

text \<open>
  The score \<open>selectRelayer\<close> gives one active relayer: the reputation, plus 10 when the
  relayer was active less than an hour ago, then scaled by the success rate when that is
  below 80. Every operation is checked, as in the source.
\<close>

definition relayerScore :: "uint256 \<Rightarrow> RelayerInfo \<Rightarrow> error + uint256" where
  "relayerScore now info =
     (case checked_sub now (lastActive info) of
        Inl e \<Rightarrow> Inl e
      | Inr idle \<Rightarrow>
          (case (if idle < ONE_HOUR then checked_add (reputationScore info) 10
                 else Inr (reputationScore info)) of
             Inl e \<Rightarrow> Inl e
           | Inr score \<Rightarrow>
               (if 0 < intentsProcessed info then
                  (case checked_mul (successfulExecutions info) 100 of
                     Inl e \<Rightarrow> Inl e
                   | Inr m \<Rightarrow>
                       (let successRate = m div intentsProcessed info in
                        if successRate < 80 then
                          (case checked_mul score successRate of
                             Inl e \<Rightarrow> Inl e
                           | Inr scaled \<Rightarrow> Inr (scaled div 100))
                        else Inr score))
                else Inr score)))"

text \<open>The loop of \<open>selectRelayer\<close> over \<open>activeRelayers\<close>, carrying the best score and relayer.\<close>

fun selectLoop ::
  "uint256 \<Rightarrow> (address \<Rightarrow> RelayerInfo) \<Rightarrow> address list \<Rightarrow> uint256 \<Rightarrow> address \<Rightarrow> error + address" where
  "selectLoop now infos [] bestScore bestRelayer = Inr bestRelayer"
| "selectLoop now infos (r # rest) bestScore bestRelayer =
     (if isActive (infos r) then
        (case relayerScore now (infos r) of
           Inl e \<Rightarrow> Inl e
         | Inr score \<Rightarrow>
             (if bestScore < score then selectLoop now infos rest score r
              else selectLoop now infos rest bestScore bestRelayer))
      else selectLoop now infos rest bestScore bestRelayer)"

text \<open>\<open>selectRelayer\<close> is a view; its argument \<open>intentId\<close> is not read.\<close>

definition selectRelayer :: "uint256 \<Rightarrow> bytes32 \<Rightarrow> CrossChainExecutor \<Rightarrow> error + address" where
  "selectRelayer now iid ex =
     (if \<not> 0 < length (activeRelayers ex) then Inl (Require ''No active relayers'')
      else (case selectLoop now (relayerInfo ex) (activeRelayers ex) 0 0 of
        Inl e \<Rightarrow> Inl e
      | Inr bestRelayer \<Rightarrow>
          (if bestRelayer = 0 then Inl (Require ''No suitable relayer found'')
           else Inr bestRelayer)))"

text \<open>The reputation update of \<open>updateRelayerReputation\<close> on one relayer record.\<close>

definition reputationUpdate :: "uint256 \<Rightarrow> bool \<Rightarrow> RelayerInfo \<Rightarrow> error + RelayerInfo" where
  "reputationUpdate now success info =
     (case checked_add (intentsProcessed info) 1 of
        Inl e \<Rightarrow> Inl e
      | Inr processed \<Rightarrow>
          (if success then
             (case checked_add (successfulExecutions info) 1 of
                Inl e \<Rightarrow> Inl e
              | Inr succeeded \<Rightarrow>
                  (if reputationScore info < 200 then
                     (case checked_add (reputationScore info) 1 of
                        Inl e \<Rightarrow> Inl e
                      | Inr rep \<Rightarrow>
                          Inr (info\<lparr>intentsProcessed := processed,
                                     successfulExecutions := succeeded,
                                     reputationScore := rep, lastActive := now\<rparr>))
                   else Inr (info\<lparr>intentsProcessed := processed,
                                   successfulExecutions := succeeded, lastActive := now\<rparr>)))
           else
             (if 10 < reputationScore info then
                (case checked_sub (reputationScore info) 5 of
                   Inl e \<Rightarrow> Inl e
                 | Inr rep \<Rightarrow>
                     Inr (info\<lparr>intentsProcessed := processed, reputationScore := rep,
                                lastActive := now\<rparr>))
              else Inr (info\<lparr>intentsProcessed := processed, lastActive := now\<rparr>))))"

text \<open>\<open>updateRelayerReputation\<close>; \<open>self\<close> is \<open>address(this)\<close>.\<close>

definition updateRelayerReputation ::
  "address \<Rightarrow> address \<Rightarrow> uint256 \<Rightarrow> address \<Rightarrow> bool \<Rightarrow> CrossChainExecutor
     \<Rightarrow> error + CrossChainExecutor" where
  "updateRelayerReputation sender self now r success ex =
     (if \<not> (sender = self \<or> authorizedRelayers ex sender) then Inl (Require ''Unauthorized'')
      else if \<not> isActive (relayerInfo ex r) then Inl (Require ''Relayer not active'')
      else (case reputationUpdate now success (relayerInfo ex r) of
        Inl e \<Rightarrow> Inl e
      | Inr info \<Rightarrow> Inr (ex\<lparr>relayerInfo := (relayerInfo ex)(r := info)\<rparr>)))"

section \<open>The deployed system and its transactions\<close>

text \<open>
  The three contracts together, and every state-changing external function of theirs as a
  call. A transaction is a sender, a block timestamp and a call; a transaction that reverts
  leaves the system as it was.
\<close>

record World =
  registry :: AgentRegistry
  policy :: PolicyEngine
  executor :: CrossChainExecutor

datatype call =
    RegisterAgent bytes32 address bytes string PolicyConfig
  | UpdateMetadata bytes32 string
  | UpdatePolicy bytes32 PolicyConfig
  | DeactivateAgent bytes32
  | ReactivateAgent bytes32
  | CheckPolicy bytes32 uint256 address uint256 uint256 uint256 "address list"
  | PauseAll
  | UnpauseAll
  | PauseAgent bytes32
  | UnpauseAgent bytes32
  | EmitIntent IntentData bytes
  | SubmitIntent bytes32
  | ExecuteIntent bytes32 "ExecutionPayload option"
  | DisputeIntent bytes32 string
  | AuthorizeRelayer address
  | RevokeRelayer address
  | RegisterRelayer uint256 uint256
  | UnregisterRelayer bool
  | UpdateRelayerReputation address bool

type_synonym tx = "address \<times> uint256 \<times> call"

definition initWorld :: "address \<Rightarrow> address \<Rightarrow> address \<Rightarrow> World" where
  "initWorld deployer reg pol =
     \<lparr> registry = AgentRegistry_constructor,
       policy = PolicyEngine_constructor deployer,
       executor = CrossChainExecutor_constructor reg pol \<rparr>"

definition onRegistry :: "error + AgentRegistry \<Rightarrow> World \<Rightarrow> error + World" where
  "onRegistry r w = (case r of Inl e \<Rightarrow> Inl e | Inr s \<Rightarrow> Inr (w\<lparr>registry := s\<rparr>))"

definition onPolicy :: "error + PolicyEngine \<Rightarrow> World \<Rightarrow> error + World" where
  "onPolicy r w = (case r of Inl e \<Rightarrow> Inl e | Inr s \<Rightarrow> Inr (w\<lparr>policy := s\<rparr>))"

definition onExecutor :: "error + CrossChainExecutor \<Rightarrow> World \<Rightarrow> error + World" where
  "onExecutor r w = (case r of Inl e \<Rightarrow> Inl e | Inr s \<Rightarrow> Inr (w\<lparr>executor := s\<rparr>))"

text \<open>
  One call on the system. \<open>recover\<close> and \<open>keccak\<close> are the signature recovery and the hash,
  \<open>self\<close> is the executor's own address.
\<close>

fun exec ::
  "(IntentData \<Rightarrow> bytes \<Rightarrow> address) \<Rightarrow> (string \<Rightarrow> bytes32) \<Rightarrow> address \<Rightarrow> address \<Rightarrow> uint256
     \<Rightarrow> call \<Rightarrow> World \<Rightarrow> error + World" where
  "exec recover keccak self sender now (RegisterAgent aid w pk cid pol) wd =
     onRegistry (registerAgent sender now aid w pk cid pol (registry wd)) wd"
| "exec recover keccak self sender now (UpdateMetadata aid cid) wd =
     onRegistry (updateMetadata sender aid cid (registry wd)) wd"
| "exec recover keccak self sender now (UpdatePolicy aid pol) wd =
     onRegistry (updatePolicy sender aid pol (registry wd)) wd"
| "exec recover keccak self sender now (DeactivateAgent aid) wd =
     onRegistry (deactivateAgent sender aid (registry wd)) wd"
| "exec recover keccak self sender now (ReactivateAgent aid) wd =
     onRegistry (reactivateAgent sender aid (registry wd)) wd"
| "exec recover keccak self sender now (CheckPolicy aid v rcp maxDay maxHour maxTx wl) wd =
     (case checkPolicy now aid v rcp maxDay maxHour maxTx wl (policy wd) of
        (Inl e, pe) \<Rightarrow> Inl e
      | (Inr approved, pe) \<Rightarrow> Inr (wd\<lparr>policy := pe\<rparr>))"
| "exec recover keccak self sender now PauseAll wd = onPolicy (pause sender (policy wd)) wd"
| "exec recover keccak self sender now UnpauseAll wd = onPolicy (unpause sender (policy wd)) wd"
| "exec recover keccak self sender now (PauseAgent aid) wd =
     onPolicy (pauseAgent sender aid (policy wd)) wd"
| "exec recover keccak self sender now (UnpauseAgent aid) wd =
     onPolicy (unpauseAgent sender aid (policy wd)) wd"
| "exec recover keccak self sender now (EmitIntent intent signature) wd =
     (case emitIntent recover now (registry wd) intent signature (policy wd) (executor wd) of
        Inl e \<Rightarrow> Inl e
      | Inr (pe, ex) \<Rightarrow> Inr (wd\<lparr>policy := pe, executor := ex\<rparr>))"
| "exec recover keccak self sender now (SubmitIntent iid) wd =
     onExecutor (submitIntent sender now iid (executor wd)) wd"
| "exec recover keccak self sender now (ExecuteIntent iid executionData) wd =
     (case executeIntent keccak now iid executionData (executor wd) of
        Inl e \<Rightarrow> Inl e
      | Inr (u, ex) \<Rightarrow> Inr (wd\<lparr>executor := ex\<rparr>))"
| "exec recover keccak self sender now (DisputeIntent iid reason) wd =
     onExecutor (disputeIntent iid reason (executor wd)) wd"
| "exec recover keccak self sender now (AuthorizeRelayer r) wd =
     onExecutor (authorizeRelayer sender r (executor wd)) wd"
| "exec recover keccak self sender now (RevokeRelayer r) wd =
     onExecutor (revokeRelayer sender r (executor wd)) wd"
| "exec recover keccak self sender now (RegisterRelayer msgValue stake) wd =
     onExecutor (registerRelayer sender now msgValue stake (executor wd)) wd"
| "exec recover keccak self sender now (UnregisterRelayer transferOk) wd =
     onExecutor (unregisterRelayer sender transferOk (executor wd)) wd"
| "exec recover keccak self sender now (UpdateRelayerReputation r success) wd =
     onExecutor (updateRelayerReputation sender self now r success (executor wd)) wd"

definition step ::
  "(IntentData \<Rightarrow> bytes \<Rightarrow> address) \<Rightarrow> (string \<Rightarrow> bytes32) \<Rightarrow> address \<Rightarrow> tx \<Rightarrow> World \<Rightarrow> World" where
  "step recover keccak self t wd =
     (case t of (sender, now, c) \<Rightarrow> state_after wd (exec recover keccak self sender now c wd))"

fun run ::
  "(IntentData \<Rightarrow> bytes \<Rightarrow> address) \<Rightarrow> (string \<Rightarrow> bytes32) \<Rightarrow> address \<Rightarrow> tx list \<Rightarrow> World \<Rightarrow> World" where
  "run recover keccak self [] wd = wd"
| "run recover keccak self (t # ts) wd = run recover keccak self ts (step recover keccak self t wd)"



section \<open>Concrete states\<close>

text \<open>
  A policy engine in which agent 7 has made three transactions in the hourly window that
  started at 1700000000.
\<close>

definition atHourlyCap :: PolicyEngine where
  "atHourlyCap =
     setWindow 7 \<lparr> dailySpent = 15, dailyWindowStart = 1700000000,
                   hourlyTxCount = 3, hourlyWindowStart = 1700000000 \<rparr>
       (PolicyEngine_constructor 1)"

text \<open>The same engine after one and after two approved transactions of 5 wei.\<close>

definition afterChecks :: "uint256 \<Rightarrow> uint256 \<Rightarrow> PolicyEngine" where
  "afterChecks spent cnt =
     setWindow 7 \<lparr> dailySpent = spent, dailyWindowStart = 1700000000,
                   hourlyTxCount = cnt, hourlyWindowStart = 1700000000 \<rparr>
       (PolicyEngine_constructor 1)"

text \<open>
  Stand-ins for the two cryptographic parameters: a hash that tells \<open>transfer\<close>, \<open>call\<close>
  and every other action apart, and a signature recovery that returns the wallet 10 for
  the signature \<open>demoSig\<close> and fails for every other one.
\<close>

definition demoHash :: "string \<Rightarrow> bytes32" where
  "demoHash s = (if s = ''transfer'' then 1 else if s = ''call'' then 2 else 3)"

definition demoSig :: bytes where
  "demoSig = replicate 65 1"

definition demoRecover :: "IntentData \<Rightarrow> bytes \<Rightarrow> address" where
  "demoRecover d sg = (if sg = demoSig then 10 else 0)"

text \<open>Intents of agent 7, signed by its wallet 10.\<close>

definition demoIntent :: "bytes32 \<Rightarrow> uint256 \<Rightarrow> IntentData" where
  "demoIntent iid n =
     \<lparr> intentId = iid, agentId = 7, srcChainId = 1, destChainId = 2,
       actionHash = demoHash ''transfer'', nonce = n, expiry = 1800000000, valueWei = 5,
       recipient = 9 \<rparr>"

definition demoPolicy :: PolicyConfig where
  "demoPolicy = \<lparr> maxSpendPerDay = 1000, maxTxPerHour = 3, maxValuePerTx = 10,
                  whitelistedAddresses = [] \<rparr>"

definition demoAgent :: Agent where
  "demoAgent = \<lparr> owner = 11, wallet = 10, publicKey = [], metadataCID = [],
                 active = True, registeredAt = 1700000000 \<rparr>"

text \<open>The registry after owner 11 registered agent 7 with wallet 10.\<close>

definition demoRegistry :: AgentRegistry where
  "demoRegistry =
     AgentRegistry_constructor
       \<lparr> agents := (agents AgentRegistry_constructor)(7 := demoAgent),
         policies := (policies AgentRegistry_constructor)(7 := demoPolicy),
         walletToAgentId := (walletToAgentId AgentRegistry_constructor)(10 := 7) \<rparr>"

definition demoEx0 :: CrossChainExecutor where
  "demoEx0 = CrossChainExecutor_constructor 2 3"

text \<open>The executor after the emission of intent 100 (nonce 0), and then of intent 101 (nonce 1).\<close>

definition demoEx1 :: CrossChainExecutor where
  "demoEx1 = demoEx0\<lparr> intents := (intents demoEx0)(100 := newIntent (demoIntent 100 0)),
              agentNonces := (agentNonces demoEx0)(7 := 1) \<rparr>"

definition demoEx2 :: CrossChainExecutor where
  "demoEx2 = demoEx1\<lparr> intents := (intents demoEx1)(101 := newIntent (demoIntent 101 1)),
              agentNonces := (agentNonces demoEx1)(7 := 2) \<rparr>"

definition world1 :: World where
  "world1 = (initWorld 1 2 3)\<lparr>registry := demoRegistry\<rparr>"

definition world2 :: World where
  "world2 = world1\<lparr>policy := afterChecks 5 1, executor := demoEx1\<rparr>"

definition world3 :: World where
  "world3 = world2\<lparr>policy := afterChecks 10 2, executor := demoEx2\<rparr>"

text \<open>A run: the registration, an emission, a stale emission, the next emission.\<close>

definition demoTxs :: "tx list" where
  "demoTxs = [(11, 1700000000, RegisterAgent 7 10 [] [] demoPolicy),
              (10, 1700000000, EmitIntent (demoIntent 100 0) demoSig),
              (10, 1700000005, EmitIntent (demoIntent 102 0) demoSig),
              (10, 1700000010, EmitIntent (demoIntent 101 1) demoSig)]"

text \<open>
  The executor after the owner (the registry's address 2) authorized relayer 12 and the
  relayer submitted intent 100 at time 1700000100; and the same with intent 100 committed to
  the action \<open>swap\<close> instead of \<open>transfer\<close>.
\<close>

definition exAuthorized :: CrossChainExecutor where
  "exAuthorized = demoEx1\<lparr>authorizedRelayers := (authorizedRelayers demoEx1)(12 := True)\<rparr>"

definition exSubmitted :: CrossChainExecutor where
  "exSubmitted =
     exAuthorized\<lparr>intents := (intents exAuthorized)(100 :=
        (intents exAuthorized 100)\<lparr>relayer := 12, submittedAt := 1700000100, status := Submitted\<rparr>)\<rparr>"

definition exExecuted :: CrossChainExecutor where
  "exExecuted =
     exSubmitted\<lparr>intents := (intents exSubmitted)(100 :=
        (intents exSubmitted 100)\<lparr>status := Executed\<rparr>)\<rparr>"

definition exSwapSubmitted :: CrossChainExecutor where
  "exSwapSubmitted =
     exSubmitted\<lparr>intents := (intents exSubmitted)(100 :=
        (intents exSubmitted 100)\<lparr>actionHash := demoHash ''swap''\<rparr>)\<rparr>"

definition transferPayload :: ExecutionPayload where
  "transferPayload = \<lparr> action = ''transfer'', targetAddress = 9, amount = 5, payloadData = [] \<rparr>"

definition swapPayload :: ExecutionPayload where
  "swapPayload = \<lparr> action = ''swap'', targetAddress = 9, amount = 5, payloadData = [] \<rparr>"

definition demoTxs2 :: "tx list" where
  "demoTxs2 = [(2, 1700000050, AuthorizeRelayer 12),
               (12, 1700000100, SubmitIntent 100),
               (13, 1700000160, ExecuteIntent 100 (Some transferPayload))]"

text \<open>A run that executes intent 100: registration, emission, authorization, submission, execution.\<close>

definition demoTxsExec :: "tx list" where
  "demoTxsExec = [(11, 1700000000, RegisterAgent 7 10 [] [] demoPolicy),
                  (10, 1700000000, EmitIntent (demoIntent 100 0) demoSig),
                  (2, 1700000050, AuthorizeRelayer 12),
                  (12, 1700000100, SubmitIntent 100),
                  (13, 1700000160, ExecuteIntent 100 (Some transferPayload))]"

text \<open>
  The executor after agent 7 emitted an intent with the zero id (nonce 0), and after it
  emitted a second intent with the zero id (nonce 1).
\<close>

definition exZeroId1 :: CrossChainExecutor where
  "exZeroId1 = demoEx0\<lparr> intents := (intents demoEx0)(0 := newIntent (demoIntent 0 0)),
                        agentNonces := (agentNonces demoEx0)(7 := 1) \<rparr>"

definition exZeroId2 :: CrossChainExecutor where
  "exZeroId2 = exZeroId1\<lparr> intents := (intents exZeroId1)(0 := newIntent (demoIntent 0 1)),
                          agentNonces := (agentNonces exZeroId1)(7 := 2) \<rparr>"

text \<open>
  The registry after owner 11 registered the agent with the zero id and wallet 10, and then
  owner 12 registered agent 5 with the same wallet 10.
\<close>

definition regZeroAgent :: AgentRegistry where
  "regZeroAgent =
     AgentRegistry_constructor
       \<lparr> agents := (agents AgentRegistry_constructor)(0 := demoAgent),
         policies := (policies AgentRegistry_constructor)(0 := demoPolicy),
         walletToAgentId := (walletToAgentId AgentRegistry_constructor)(10 := 0) \<rparr>"

definition regSharedWallet :: AgentRegistry where
  "regSharedWallet =
     regZeroAgent
       \<lparr> agents := (agents regZeroAgent)(5 := demoAgent\<lparr>owner := 12, registeredAt := 1700000500\<rparr>),
         policies := (policies regZeroAgent)(5 := demoPolicy),
         walletToAgentId := (walletToAgentId regZeroAgent)(10 := 5) \<rparr>"

text \<open>An active relayer record with reputation \<open>rep\<close>, 20 intents processed, 2 of them successfully.\<close>

definition repInfo :: "uint256 \<Rightarrow> RelayerInfo" where
  "repInfo rep = \<lparr> relayerAddress = 12, stakeAmount = 100000000000000000, reputationScore = rep,
                   intentsProcessed = 20, successfulExecutions = 2, isActive = True,
                   lastActive = 1700000000 \<rparr>"

text \<open>
  A run in which relayer 12 is authorized, registers with the minimum stake and reports one
  failed execution of its own.
\<close>

definition demoTxsRelayer :: "tx list" where
  "demoTxsRelayer = [(2, 1700000050, AuthorizeRelayer 12),
                     (12, 1700000060, RegisterRelayer 100000000000000000 100000000000000000),
                     (12, 1700000070, UpdateRelayerReputation 12 False)]"

text \<open>
  The executor states of that run: relayer 12 authorized, then registered (reputation 100),
  then after its failure report (reputation 95).
\<close>

definition newRelayer :: RelayerInfo where
  "newRelayer = \<lparr> relayerAddress = 12, stakeAmount = 100000000000000000, reputationScore = 100,
                  intentsProcessed = 0, successfulExecutions = 0, isActive = True,
                  lastActive = 1700000060 \<rparr>"

definition exRelayer0 :: CrossChainExecutor where
  "exRelayer0 = demoEx0\<lparr>authorizedRelayers := (authorizedRelayers demoEx0)(12 := True)\<rparr>"

definition exRelayer1 :: CrossChainExecutor where
  "exRelayer1 = exRelayer0\<lparr> relayerInfo := (relayerInfo exRelayer0)(12 := newRelayer),
                           activeRelayers := [12] \<rparr>"

definition exRelayer2 :: CrossChainExecutor where
  "exRelayer2 = exRelayer1\<lparr> relayerInfo := (relayerInfo exRelayer1)(12 :=
                   newRelayer\<lparr>intentsProcessed := 1, reputationScore := 95,
                              lastActive := 1700000070\<rparr>) \<rparr>"

text \<open>The registered relayer 12 with the record \<open>repInfo rep\<close>.\<close>

definition exReputation :: "uint256 \<Rightarrow> CrossChainExecutor" where
  "exReputation rep = exRelayer1\<lparr>relayerInfo := (relayerInfo exRelayer1)(12 := repInfo rep)\<rparr>"

text \<open>
  The score in the spec's words, on natural numbers: the reputation, plus 10 when the
  relayer was last active less than an hour ago, the whole scaled by \<open>successRate / 100\<close>
  when the relayer has processed an intent and its success rate (in percent, rounded down)
  is below 80.
\<close>

definition specScore :: "uint256 \<Rightarrow> RelayerInfo \<Rightarrow> nat" where
  "specScore now info =
     (let base = unat (reputationScore info)
                   + (if unat now - unat (lastActive info) < 3600 then 10 else 0);
          rate = unat (successfulExecutions info) * 100 div unat (intentsProcessed info)
      in if 0 < unat (intentsProcessed info) \<and> rate < 80 then base * rate div 100 else base)"

text \<open>
  Three registered relayers: 12 with reputation 100, last active at 1700003000; 13 and 14
  with reputation 105 after five successes each, last active at 1700000000.
\<close>

definition relayerRecord :: "address \<Rightarrow> uint256 \<Rightarrow> uint256 \<Rightarrow> uint256 \<Rightarrow> RelayerInfo" where
  "relayerRecord who rep successes la =
     \<lparr> relayerAddress = who, stakeAmount = 100000000000000000, reputationScore = rep,
       intentsProcessed = successes, successfulExecutions = successes, isActive = True,
       lastActive = la \<rparr>"

definition exThreeRelayers :: CrossChainExecutor where
  "exThreeRelayers =
     demoEx0\<lparr> relayerInfo := (relayerInfo demoEx0)
                  (12 := relayerRecord 12 100 0 1700003000,
                   13 := relayerRecord 13 105 5 1700000000,
                   14 := relayerRecord 14 105 5 1700000000),
              activeRelayers := [12, 13, 14] \<rparr>"

text \<open>The directory after a \<open>registerRelayer\<close> call whose sender is the zero address.\<close>

definition exZeroRelayer :: CrossChainExecutor where
  "exZeroRelayer = exRelayer0\<lparr> relayerInfo := (relayerInfo exRelayer0)(0 :=
                      newRelayer\<lparr>relayerAddress := 0\<rparr>),
                    activeRelayers := [0] \<rparr>"

section \<open>Policy checks\<close>

lemma rollback_Inl: "fst (rollback s r) = Inl e \<Longrightarrow> snd (rollback s r) = s"
  by (cases r) (auto simp: rollback_def split: sum.splits)

lemmas pe_defs = checkPolicy_def checkPolicy_run_def rollback_def breakerGate_def
  dailyWindowUpdate_def hourlyWindowUpdate_def updateCounters_def checkCircuitBreaker_def
  setWindow_def checked_add_def PolicyEngine_constructor_def ONE_DAY_def ONE_HOUR_def

lemma breakerGate_tripped: "breakerGate now s = Inr s1 \<Longrightarrow> \<not> tripped (circuitBreaker s1)"
  by (auto simp: breakerGate_def split: if_splits sum.splits)

lemma dailyWindowUpdate_breaker:
  "dailyWindowUpdate now a s = Inr s1 \<Longrightarrow> circuitBreaker s1 = circuitBreaker s"
  by (auto simp: dailyWindowUpdate_def setWindow_def Let_def split: if_splits sum.splits)

lemma hourlyWindowUpdate_breaker:
  "hourlyWindowUpdate now a s = Inr s1 \<Longrightarrow> circuitBreaker s1 = circuitBreaker s"
  by (auto simp: hourlyWindowUpdate_def setWindow_def Let_def split: if_splits sum.splits)

lemma updateCounters_breaker:
  "updateCounters a v s = (Inr b, s1) \<Longrightarrow> circuitBreaker s1 = circuitBreaker s"
  by (auto simp: updateCounters_def setWindow_def Let_def split: if_splits sum.splits)

text \<open>An approved check never returns with the breaker tripped.\<close>

lemma checkPolicy_run_approved_not_tripped:
  "checkPolicy_run now a v rcp maxDay maxHour maxTx wl s = (Inr b, s') \<Longrightarrow>
   \<not> tripped (circuitBreaker s')"
  unfolding checkPolicy_run_def
  by (auto split: if_splits sum.splits dest!: breakerGate_tripped dailyWindowUpdate_breaker
        hourlyWindowUpdate_breaker updateCounters_breaker)

text \<open>
  No call of \<open>checkPolicy\<close> trips the breaker: the only write of \<open>tripped = true\<close> is followed
  by a revert.
\<close>

lemma checkPolicy_never_trips:
  "\<not> tripped (circuitBreaker s) \<Longrightarrow>
   \<not> tripped (circuitBreaker (snd (checkPolicy now a v rcp maxDay maxHour maxTx wl s)))"
  unfolding checkPolicy_def rollback_def
  by (cases "checkPolicy_run now a v rcp maxDay maxHour maxTx wl s")
     (auto split: sum.splits dest: checkPolicy_run_approved_not_tripped)

lemma checkPolicy_approved_True:
  "fst (checkPolicy now a v rcp maxDay maxHour maxTx wl s) = Inr b \<Longrightarrow> b"
  unfolding checkPolicy_def rollback_def checkPolicy_run_def updateCounters_def
  by (auto simp: Let_def split: if_splits sum.splits)

lemma atHourlyCap_rejected:
  "checkPolicy 1700000100 7 5 9 1000 3 10 [] atHourlyCap
     = (Inl (PolicyViolation ''Exceeds maxTxPerHour''), atHourlyCap)"
  by (simp add: pe_defs atHourlyCap_def)

lemma atHourlyCap_in_flight:
  "checkPolicy_run 1700000100 7 5 9 1000 3 10 [] atHourlyCap
     = (Inl (PolicyViolation ''Exceeds maxTxPerHour''), checkCircuitBreaker 1700000100 atHourlyCap)"
  by (simp add: pe_defs atHourlyCap_def)

text \<open>
  C2. Whenever \<open>checkPolicy\<close> rejects, for whatever reason (system paused, agent paused,
  circuit breaker active, per-transaction cap, daily cap, hourly cap, whitelist, or an
  arithmetic panic), the policy engine after the call is the policy engine before the call:
  in particular the agent's rolling window (\<open>dailySpent\<close>, \<open>dailyWindowStart\<close>,
  \<open>hourlyTxCount\<close>, \<open>hourlyWindowStart\<close>) and the circuit breaker are unchanged. The body
  does write before some of its reverts (a window reset, the breaker's auto-reset, the
  breaker's trip); the revert discards these writes.
\<close>

theorem checkPolicy_rejection_keeps_state:
  "fst (checkPolicy now a v rcp maxDay maxHour maxTx wl s) = Inl e \<Longrightarrow>
   snd (checkPolicy now a v rcp maxDay maxHour maxTx wl s) = s
   \<and> rollingWindows (snd (checkPolicy now a v rcp maxDay maxHour maxTx wl s)) = rollingWindows s
   \<and> circuitBreaker (snd (checkPolicy now a v rcp maxDay maxHour maxTx wl s)) = circuitBreaker s"
  unfolding checkPolicy_def by (simp add: rollback_Inl)

text \<open>
  The witness is a rejection at the hourly cap, where the body had tripped the breaker
  before it reverted.
\<close>

theorem checkPolicy_rejection_keeps_state_witness:
  "fst (checkPolicy 1700000100 7 5 9 1000 3 10 [] atHourlyCap)
     = Inl (PolicyViolation ''Exceeds maxTxPerHour'')
   \<and> snd (checkPolicy 1700000100 7 5 9 1000 3 10 [] atHourlyCap) = atHourlyCap
   \<and> snd (checkPolicy_run 1700000100 7 5 9 1000 3 10 [] atHourlyCap) \<noteq> atHourlyCap"
proof -
  have r: "fst (checkPolicy 1700000100 7 5 9 1000 3 10 [] atHourlyCap)
             = Inl (PolicyViolation ''Exceeds maxTxPerHour'')"
    by (simp add: atHourlyCap_rejected)
  have "tripped (circuitBreaker (snd (checkPolicy_run 1700000100 7 5 9 1000 3 10 [] atHourlyCap)))"
    unfolding atHourlyCap_in_flight
    by (simp add: checkCircuitBreaker_def atHourlyCap_def setWindow_def
          PolicyEngine_constructor_def)
  moreover have "\<not> tripped (circuitBreaker atHourlyCap)"
    by (simp add: atHourlyCap_def setWindow_def PolicyEngine_constructor_def)
  ultimately have "snd (checkPolicy_run 1700000100 7 5 9 1000 3 10 [] atHourlyCap) \<noteq> atHourlyCap"
    by metis
  with r checkPolicy_rejection_keeps_state [OF r] show ?thesis by simp
qed

lemma check_first: "checkPolicy 1700000000 7 5 9 1000 3 10 [] (PolicyEngine_constructor 1)
   = (Inr True, afterChecks 5 1)"
  by (simp add: pe_defs afterChecks_def word_le_nat_alt word_less_nat_alt)

lemma check_second: "checkPolicy 1700000010 7 5 9 1000 3 10 [] (afterChecks 5 1)
   = (Inr True, afterChecks 10 2)"
  by (simp add: pe_defs afterChecks_def word_le_nat_alt word_less_nat_alt)

lemma check_third: "checkPolicy 1700000020 7 5 9 1000 3 10 [] (afterChecks 10 2)
   = (Inr True, atHourlyCap)"
  by (simp add: pe_defs afterChecks_def atHourlyCap_def word_le_nat_alt word_less_nat_alt)

text \<open>
  C3. The spec's Scenario A on the code, with \<open>maxTxPerHour = 3\<close>: from the freshly deployed
  engine three checks are approved; the fourth, in the same hour, is rejected with
  \<open>PolicyViolation\<close>, and the body does trip the breaker. But the rejection is a revert,
  so the trip is discarded with it: after the call the breaker is not tripped, and the fifth
  check is rejected with \<open>PolicyViolation\<close> again, not with \<open>CircuitBreakerActive\<close>.
\<close>

theorem hourly_cap_rejection_does_not_trip_breaker:
  "checkPolicy 1700000000 7 5 9 1000 3 10 [] (PolicyEngine_constructor 1) = (Inr True, afterChecks 5 1)
   \<and> checkPolicy 1700000010 7 5 9 1000 3 10 [] (afterChecks 5 1) = (Inr True, afterChecks 10 2)
   \<and> checkPolicy 1700000020 7 5 9 1000 3 10 [] (afterChecks 10 2) = (Inr True, atHourlyCap)
   \<and> checkPolicy 1700000100 7 5 9 1000 3 10 [] atHourlyCap
        = (Inl (PolicyViolation ''Exceeds maxTxPerHour''), atHourlyCap)
   \<and> tripped (circuitBreaker (snd (checkPolicy_run 1700000100 7 5 9 1000 3 10 [] atHourlyCap)))
   \<and> \<not> tripped (circuitBreaker atHourlyCap)
   \<and> fst (checkPolicy 1700000200 7 5 9 1000 3 10 [] atHourlyCap)
        = Inl (PolicyViolation ''Exceeds maxTxPerHour'')
   \<and> fst (checkPolicy 1700000200 7 5 9 1000 3 10 [] atHourlyCap) \<noteq> Inl CircuitBreakerActive"
proof -
  have a: "tripped (circuitBreaker (snd (checkPolicy_run 1700000100 7 5 9 1000 3 10 [] atHourlyCap)))"
    unfolding atHourlyCap_in_flight
    by (simp add: checkCircuitBreaker_def atHourlyCap_def setWindow_def
          PolicyEngine_constructor_def)
  have b: "\<not> tripped (circuitBreaker atHourlyCap)"
    by (simp add: atHourlyCap_def setWindow_def PolicyEngine_constructor_def)
  have c: "fst (checkPolicy 1700000200 7 5 9 1000 3 10 [] atHourlyCap)
        = Inl (PolicyViolation ''Exceeds maxTxPerHour'')"
    by (simp add: pe_defs atHourlyCap_def)
  show ?thesis using a b c check_first check_second check_third atHourlyCap_rejected by simp
qed

section \<open>What each call of the executor does\<close>

lemma checked_add_Inr:
  "checked_add a b = Inr c \<Longrightarrow> c = a + b \<and> unat c = unat a + unat b"
  unfolding checked_add_def
  by (auto simp: unat_add_lem [THEN iffD1] split: if_splits)

lemma checked_add_Inl: "checked_add a b = Inl e \<Longrightarrow> e = Panic"
  by (auto simp: checked_add_def split: if_splits)

lemma checked_add_fits:
  "unat a + unat b < 2 ^ 256 \<Longrightarrow> checked_add a b = Inr (a + b)"
  by (simp add: checked_add_def)

lemma unat_TIMELOCK: "unat TIMELOCK_DURATION = 60"
  by (simp add: TIMELOCK_DURATION_def)

lemma nonReentrant_Inr:
  "nonReentrant body ex = Inr (a, ex') \<Longrightarrow>
   reentrancy_status ex \<noteq> ENTERED \<and>
   (\<exists>ex1. body (ex\<lparr>reentrancy_status := ENTERED\<rparr>) = Inr (a, ex1)
          \<and> ex' = ex1\<lparr>reentrancy_status := NOT_ENTERED\<rparr>)"
  by (auto simp: nonReentrant_def split: if_splits sum.splits)

lemma nonReentrant_Inl:
  "reentrancy_status ex \<noteq> ENTERED \<Longrightarrow> body (ex\<lparr>reentrancy_status := ENTERED\<rparr>) = Inl e \<Longrightarrow>
   nonReentrant body ex = Inl e"
  by (simp add: nonReentrant_def)

lemma nonReentrant_ok:
  "reentrancy_status ex \<noteq> ENTERED \<Longrightarrow> body (ex\<lparr>reentrancy_status := ENTERED\<rparr>) = Inr (a, ex1) \<Longrightarrow>
   nonReentrant body ex = Inr (a, ex1\<lparr>reentrancy_status := NOT_ENTERED\<rparr>)"
  by (simp add: nonReentrant_def)



lemma emitIntent_body_Inr:
  "emitIntent_body recover now reg d sg pe ex = Inr (pe', ex') \<Longrightarrow>
   intentId (intents ex (intentId d)) = 0 \<and> \<not> expiry d < now \<and>
   nonce d = agentNonces ex (agentId d) \<and>
   unat (agentNonces ex (agentId d)) + 1 < 2 ^ 256 \<and>
   ex' = ex\<lparr> intents := (intents ex)(intentId d := newIntent d),
              agentNonces := (agentNonces ex)(agentId d := agentNonces ex (agentId d) + 1) \<rparr>"
  unfolding emitIntent_body_def
  by (simp add: checked_add_def split: if_splits sum.splits prod.splits)


lemma emitIntent_body_InvalidNonce:
  "intentId (intents ex (intentId d)) = 0 \<Longrightarrow> \<not> expiry d < now \<Longrightarrow>
   nonce d \<noteq> agentNonces ex (agentId d) \<Longrightarrow>
   emitIntent_body recover now reg d sg pe ex = Inl InvalidNonce"
  unfolding emitIntent_body_def by simp

lemma emitIntent_body_exists:
  "intentId (intents ex (intentId d)) \<noteq> 0 \<Longrightarrow>
   emitIntent_body recover now reg d sg pe ex = Inl IntentAlreadyExists"
  unfolding emitIntent_body_def by simp


lemma emitIntent_Inr:
  assumes "emitIntent recover now reg d sg pe ex = Inr (pe', ex')"
  shows "nonce d = agentNonces ex (agentId d)
     \<and> unat (agentNonces ex' (agentId d)) = unat (agentNonces ex (agentId d)) + 1
     \<and> agentNonces ex' = (agentNonces ex)(agentId d := agentNonces ex (agentId d) + 1)
     \<and> intents ex' = (intents ex)(intentId d := newIntent d)
     \<and> relayerInfo ex' = relayerInfo ex
     \<and> activeRelayers ex' = activeRelayers ex
     \<and> authorizedRelayers ex' = authorizedRelayers ex
     \<and> intentId (intents ex (intentId d)) = 0"
proof -
  from assms obtain ex1 where
    b: "emitIntent_body recover now reg d sg pe (ex\<lparr>reentrancy_status := ENTERED\<rparr>) = Inr (pe', ex1)"
    and e: "ex' = ex1\<lparr>reentrancy_status := NOT_ENTERED\<rparr>"
    unfolding emitIntent_def by (blast dest: nonReentrant_Inr)
  note f = emitIntent_body_Inr [OF b]
  from f have n: "unat (agentNonces ex (agentId d)) + unat (1::uint256) < 2 ^ LENGTH(256)" by simp
  have "unat (agentNonces ex (agentId d) + 1) = unat (agentNonces ex (agentId d)) + unat (1::uint256)"
    using n by (simp only: unat_add_lem [THEN iffD1])
  with f e show ?thesis by simp
qed


lemma emitIntent_InvalidNonce:
  "reentrancy_status ex \<noteq> ENTERED \<Longrightarrow> intentId (intents ex (intentId d)) = 0 \<Longrightarrow>
   \<not> expiry d < now \<Longrightarrow> nonce d \<noteq> agentNonces ex (agentId d) \<Longrightarrow>
   emitIntent recover now reg d sg pe ex = Inl InvalidNonce"
  unfolding emitIntent_def
  by (rule nonReentrant_Inl) (simp_all add: emitIntent_body_InvalidNonce)

lemma emitIntent_exists:
  "reentrancy_status ex \<noteq> ENTERED \<Longrightarrow> intentId (intents ex (intentId d)) \<noteq> 0 \<Longrightarrow>
   emitIntent recover now reg d sg pe ex = Inl IntentAlreadyExists"
  unfolding emitIntent_def
  by (rule nonReentrant_Inl) (simp_all add: emitIntent_body_exists)

text \<open>What the other functions of the executor leave alone.\<close>

lemma submitIntent_Inr:
  "submitIntent sender now iid ex = Inr ex' \<Longrightarrow>
   intentId (intents ex iid) \<noteq> 0 \<and> status (intents ex iid) = Pending \<and>
   ex' = ex\<lparr>intents := (intents ex)(iid :=
            (intents ex iid)\<lparr>relayer := sender, submittedAt := now, status := Submitted\<rparr>)\<rparr>"
  by (simp add: submitIntent_def split: if_splits)

lemma disputeIntent_Inr:
  "disputeIntent iid reason ex = Inr ex' \<Longrightarrow>
   intentId (intents ex iid) \<noteq> 0 \<and>
   ex' = ex\<lparr>intents := (intents ex)(iid := (intents ex iid)\<lparr>status := Disputed\<rparr>)\<rparr>"
  by (simp add: disputeIntent_def split: if_splits)

lemma executeIntent_body_Inr:
  "executeIntent_body keccak now iid p ex = Inr (u, ex') \<Longrightarrow>
   intentId (intents ex iid) \<noteq> 0 \<and> status (intents ex iid) = Submitted \<and>
   (actionHash (intents ex iid) = keccak ''transfer'' \<or> actionHash (intents ex iid) = keccak ''call'') \<and>
   ex' = ex\<lparr>intents := (intents ex)(iid := (intents ex iid)\<lparr>status := Executed\<rparr>)\<rparr>"
  unfolding executeIntent_body_def
  by (simp split: if_splits sum.splits option.splits)

lemma executeIntent_Inr:
  assumes "executeIntent keccak now iid p ex = Inr (u, ex')"
  shows "intentId (intents ex iid) \<noteq> 0 \<and> status (intents ex iid) = Submitted \<and>
   (actionHash (intents ex iid) = keccak ''transfer'' \<or> actionHash (intents ex iid) = keccak ''call'') \<and>
   intents ex' = (intents ex)(iid := (intents ex iid)\<lparr>status := Executed\<rparr>) \<and>
   agentNonces ex' = agentNonces ex \<and> relayerInfo ex' = relayerInfo ex \<and>
   activeRelayers ex' = activeRelayers ex \<and> authorizedRelayers ex' = authorizedRelayers ex"
proof -
  from assms obtain ex1 where
    b: "executeIntent_body keccak now iid p (ex\<lparr>reentrancy_status := ENTERED\<rparr>) = Inr (u, ex1)"
    and e: "ex' = ex1\<lparr>reentrancy_status := NOT_ENTERED\<rparr>"
    unfolding executeIntent_def by (blast dest: nonReentrant_Inr)
  from executeIntent_body_Inr [OF b] e show ?thesis by simp
qed

lemma authorizeRelayer_Inr:
  "authorizeRelayer sender r ex = Inr ex' \<Longrightarrow>
   ex' = ex\<lparr>authorizedRelayers := (authorizedRelayers ex)(r := True)\<rparr>"
  by (simp add: authorizeRelayer_def split: if_splits)

lemma revokeRelayer_Inr:
  "revokeRelayer sender r ex = Inr ex' \<Longrightarrow>
   ex' = ex\<lparr>authorizedRelayers := (authorizedRelayers ex)(r := False)\<rparr>"
  by (simp add: revokeRelayer_def split: if_splits)

lemma registerRelayer_Inr:
  "registerRelayer sender now msgValue stake ex = Inr ex' \<Longrightarrow>
   \<not> isActive (relayerInfo ex sender) \<and>
   ex' = ex\<lparr> relayerInfo := (relayerInfo ex)(sender :=
                       \<lparr> relayerAddress = sender, stakeAmount = stake, reputationScore = 100,
                         intentsProcessed = 0, successfulExecutions = 0, isActive = True,
                         lastActive = now \<rparr>),
                    activeRelayers := activeRelayers ex @ [sender] \<rparr>"
  by (simp add: registerRelayer_def split: if_splits)

lemma unregisterRelayer_Inr:
  "unregisterRelayer sender ok ex = Inr ex' \<Longrightarrow>
   isActive (relayerInfo ex sender) \<and>
   ex' = ex\<lparr> activeRelayers := removeLoop 0 sender (activeRelayers ex),
                    relayerInfo := (relayerInfo ex)(sender :=
                       (relayerInfo ex sender)\<lparr>isActive := False, stakeAmount := 0\<rparr>) \<rparr>"
  by (simp add: unregisterRelayer_def split: if_splits)

lemma updateRelayerReputation_Inr:
  "updateRelayerReputation sender self now r success ex = Inr ex' \<Longrightarrow>
   isActive (relayerInfo ex r) \<and> (sender = self \<or> authorizedRelayers ex sender) \<and>
   (\<exists>info. reputationUpdate now success (relayerInfo ex r) = Inr info
       \<and> ex' = ex\<lparr>relayerInfo := (relayerInfo ex)(r := info)\<rparr>)"
  by (simp add: updateRelayerReputation_def split: if_splits sum.splits)

section \<open>Runs of the system\<close>

lemma run_invariant:
  assumes "\<And>t w. I w \<Longrightarrow> I (step recover keccak self t w)" and "I wd"
  shows "I (run recover keccak self txs wd)"
  using assms(2) by (induction txs arbitrary: wd) (simp_all add: assms(1))

lemma run_append:
  "run recover keccak self (xs @ ys) wd = run recover keccak self ys (run recover keccak self xs wd)"
  by (induction xs arbitrary: wd) simp_all

lemma step_Inl:
  "exec recover keccak self sender now c wd = Inl e \<Longrightarrow>
   step recover keccak self (sender, now, c) wd = wd"
  by (simp add: step_def state_after_def)

lemma step_Inr:
  "exec recover keccak self sender now c wd = Inr wd' \<Longrightarrow>
   step recover keccak self (sender, now, c) wd = wd'"
  by (simp add: step_def state_after_def)

lemma exec_emit_Inr:
  assumes "exec recover keccak self sender now (EmitIntent d sg) wd = Inr wd'"
  shows "\<exists>pe' ex'. emitIntent recover now (registry wd) d sg (policy wd) (executor wd) = Inr (pe', ex')
            \<and> wd' = wd\<lparr>policy := pe', executor := ex'\<rparr>"
  using assms by (simp split: sum.splits prod.splits)

lemma exec_execute_Inr:
  assumes "exec recover keccak self sender now (ExecuteIntent iid p) wd = Inr wd'"
  shows "\<exists>ex'. executeIntent keccak now iid p (executor wd) = Inr ((), ex')
            \<and> wd' = wd\<lparr>executor := ex'\<rparr>"
  using assms by (simp split: sum.splits prod.splits)

lemma onExecutor_Inr:
  "onExecutor r wd = Inr wd' \<Longrightarrow> \<exists>ex'. r = Inr ex' \<and> wd' = wd\<lparr>executor := ex'\<rparr>"
  by (simp add: onExecutor_def split: sum.splits)

lemma onRegistry_Inr:
  "onRegistry r wd = Inr wd' \<Longrightarrow> \<exists>s. r = Inr s \<and> wd' = wd\<lparr>registry := s\<rparr>"
  by (simp add: onRegistry_def split: sum.splits)

lemma onPolicy_Inr:
  "onPolicy r wd = Inr wd' \<Longrightarrow> \<exists>s. r = Inr s \<and> wd' = wd\<lparr>policy := s\<rparr>"
  by (simp add: onPolicy_def split: sum.splits)

lemma exec_checkPolicy_Inr:
  assumes "exec recover keccak self sender now (CheckPolicy aid v rcp maxDay maxHour maxTx wl) wd = Inr wd'"
  shows "executor wd' = executor wd \<and> registry wd' = registry wd"
  using assms by (auto split: sum.splits prod.splits)






section \<open>Nonces\<close>

lemmas ex_defs = emitIntent_def emitIntent_body_def nonReentrant_def verifyIntentSignature_def
  isAgentActive_def getAgent_def newIntent_def CrossChainExecutor_constructor_def
  NOT_ENTERED_def ENTERED_def zeroIntent_def zeroRelayerInfo_def

lemma check_first_emit: "checkPolicy 1700000000 7 5 9 1000000000000000000 10 100000000000000000 [] (PolicyEngine_constructor 1)
   = (Inr True, afterChecks 5 1)"
  by (simp add: pe_defs afterChecks_def word_le_nat_alt word_less_nat_alt)

lemma check_second_emit: "checkPolicy 1700000010 7 5 9 1000000000000000000 10 100000000000000000 [] (afterChecks 5 1)
   = (Inr True, afterChecks 10 2)"
  by (simp add: pe_defs afterChecks_def word_le_nat_alt word_less_nat_alt)

lemma emit_first:
  "emitIntent demoRecover 1700000000 demoRegistry (demoIntent 100 0) demoSig
     (PolicyEngine_constructor 1) demoEx0 = Inr (afterChecks 5 1, demoEx1)"
  by (simp add: ex_defs check_first_emit demoRecover_def demoSig_def demoRegistry_def
        demoAgent_def demoIntent_def demoEx0_def demoEx1_def AgentRegistry_constructor_def
        checked_add_def)


lemma emit_second:
  "emitIntent demoRecover 1700000010 demoRegistry (demoIntent 101 1) demoSig
     (afterChecks 5 1) demoEx1 = Inr (afterChecks 10 2, demoEx2)"
  by (simp add: ex_defs check_second_emit demoRecover_def demoSig_def demoRegistry_def
        demoAgent_def demoIntent_def demoEx0_def demoEx1_def demoEx2_def AgentRegistry_constructor_def
        checked_add_def)

lemma register_demo:
  "registerAgent 11 1700000000 7 10 [] [] demoPolicy AgentRegistry_constructor = Inr demoRegistry"
  by (simp add: registerAgent_def demoRegistry_def demoAgent_def AgentRegistry_constructor_def)

lemma exec_register_demo:
  "exec demoRecover demoHash 4 11 1700000000 (RegisterAgent 7 10 [] [] demoPolicy) (initWorld 1 2 3)
     = Inr world1"
  by (simp add: onRegistry_def register_demo initWorld_def world1_def)

lemma exec_emit_first:
  "exec demoRecover demoHash 4 10 1700000000 (EmitIntent (demoIntent 100 0) demoSig) world1
     = Inr world2"
  by (simp add: world1_def world2_def initWorld_def emit_first demoEx0_def [symmetric])

lemma exec_emit_stale:
  "exec demoRecover demoHash 4 10 1700000005 (EmitIntent (demoIntent 102 0) demoSig) world2
     = Inl InvalidNonce"
proof -
  have "emitIntent demoRecover 1700000005 demoRegistry (demoIntent 102 0) demoSig
          (afterChecks 5 1) demoEx1 = Inl InvalidNonce"
    by (rule emitIntent_InvalidNonce)
       (simp_all add: demoEx1_def demoEx0_def demoIntent_def CrossChainExecutor_constructor_def
          zeroIntent_def newIntent_def NOT_ENTERED_def ENTERED_def)
  then show ?thesis by (simp add: world1_def world2_def initWorld_def)
qed

lemma exec_emit_second:
  "exec demoRecover demoHash 4 10 1700000010 (EmitIntent (demoIntent 101 1) demoSig) world2
     = Inr world3"
  by (simp add: world1_def world2_def world3_def initWorld_def emit_second)



lemma demo_run:
  "run demoRecover demoHash 4 demoTxs (initWorld 1 2 3) = world3"
  unfolding demoTxs_def
  by (simp add: step_def state_after_def exec_register_demo exec_emit_first
        exec_emit_stale exec_emit_second del: exec.simps)










section \<open>The timelock and the action dispatch of executeIntent\<close>

lemma word_less_unat_add:
  fixes x s c :: uint256
  assumes "unat s + unat c < 2 ^ 256"
  shows "x < s + c \<longleftrightarrow> unat x < unat s + unat c"
proof -
  from assms have "unat (s + c) = unat s + unat c"
    using unat_add_lem [of s c] by simp
  then show ?thesis by (simp add: word_less_nat_alt)
qed

lemma executeIntent_body_locked:
  assumes "intentId (intents ex iid) \<noteq> 0" and "status (intents ex iid) = Submitted"
    and "unat (submittedAt (intents ex iid)) + 60 < 2 ^ 256"
    and "unat now < unat (submittedAt (intents ex iid)) + 60"
  shows "executeIntent_body keccak now iid p ex = Inl TimelockNotExpired"
proof -
  have a: "checked_add (submittedAt (intents ex iid)) TIMELOCK_DURATION
             = Inr (submittedAt (intents ex iid) + TIMELOCK_DURATION)"
    using assms(3) by (simp add: checked_add_def unat_TIMELOCK)
  have "now < submittedAt (intents ex iid) + TIMELOCK_DURATION"
    using assms(3,4) by (simp add: word_less_unat_add unat_TIMELOCK)
  with a assms(1,2) show ?thesis by (simp add: executeIntent_body_def)
qed

lemma executeIntent_body_unlocked:
  assumes "intentId (intents ex iid) \<noteq> 0" and "status (intents ex iid) = Submitted"
    and "unat (submittedAt (intents ex iid)) + 60 \<le> unat now"
    and "keccak (action pl) = actionHash (intents ex iid)"
    and "targetAddress pl = recipient (intents ex iid)"
    and "amount pl = valueWei (intents ex iid)"
  shows "executeIntent_body keccak now iid (Some pl) ex =
     (if keccak (action pl) = keccak ''transfer'' \<or> keccak (action pl) = keccak ''call''
      then Inr ((), ex\<lparr>intents := (intents ex)(iid := (intents ex iid)\<lparr>status := Executed\<rparr>)\<rparr>)
      else Inl (Require ''Unsupported action''))"
proof -
  have "unat now < 2 ^ 256" using unsigned_less [of now] by simp
  with assms(3) have fits: "unat (submittedAt (intents ex iid)) + 60 < 2 ^ 256" by linarith
  then have a: "checked_add (submittedAt (intents ex iid)) TIMELOCK_DURATION
             = Inr (submittedAt (intents ex iid) + TIMELOCK_DURATION)"
    by (simp add: checked_add_def unat_TIMELOCK)
  have "\<not> now < submittedAt (intents ex iid) + TIMELOCK_DURATION"
    using fits assms(3) by (simp add: word_less_unat_add unat_TIMELOCK)
  with a assms(1,2,4,5,6) show ?thesis by (simp add: executeIntent_body_def)
qed


lemmas demo_ex_defs = exSubmitted_def exAuthorized_def exExecuted_def exSwapSubmitted_def demoEx1_def
  demoEx0_def newIntent_def demoIntent_def CrossChainExecutor_constructor_def zeroIntent_def
  NOT_ENTERED_def ENTERED_def transferPayload_def swapPayload_def demoHash_def

lemma exSubmitted_intent:
  "intentId (intents exSubmitted 100) = 100" "status (intents exSubmitted 100) = Submitted"
  "submittedAt (intents exSubmitted 100) = 1700000100"
  "actionHash (intents exSubmitted 100) = 1" "recipient (intents exSubmitted 100) = 9"
  "valueWei (intents exSubmitted 100) = 5" "reentrancy_status exSubmitted = 1"
  by (simp_all add: demo_ex_defs)

lemma exSwapSubmitted_intent:
  "intentId (intents exSwapSubmitted 100) = 100" "status (intents exSwapSubmitted 100) = Submitted"
  "submittedAt (intents exSwapSubmitted 100) = 1700000100"
  "actionHash (intents exSwapSubmitted 100) = 3" "recipient (intents exSwapSubmitted 100) = 9"
  "valueWei (intents exSwapSubmitted 100) = 5" "reentrancy_status exSwapSubmitted = 1"
  by (simp_all add: demo_ex_defs)

lemma payload_fields:
  "demoHash (action transferPayload) = 1" "targetAddress transferPayload = 9"
  "amount transferPayload = 5" "demoHash (action swapPayload) = 3"
  "targetAddress swapPayload = 9" "amount swapPayload = 5"
  "demoHash ''transfer'' = 1" "demoHash ''call'' = 2"
  by (simp_all add: transferPayload_def swapPayload_def demoHash_def)

lemma exExecuted_eq:
  "exSubmitted\<lparr>intents := (intents exSubmitted)(100 := (intents exSubmitted 100)\<lparr>status := Executed\<rparr>),
       reentrancy_status := NOT_ENTERED\<rparr> = exExecuted"
  by (simp add: exExecuted_def exSubmitted_def exAuthorized_def demoEx1_def demoEx0_def
        CrossChainExecutor_constructor_def)

text \<open>
  C5 as the code has it. For an existing intent in status Submitted, outside a re-entrant
  call: before \<open>submittedAt + TIMELOCK_DURATION\<close> (60 seconds; the sum must fit a
  \<open>uint256\<close>, or the checked addition panics) \<open>executeIntent\<close> fails with
  \<open>TimelockNotExpired\<close>; from exactly that time on, with a payload whose action hash,
  recipient and amount match the intent, it sets the status to Executed when the action
  hashes like \<open>transfer\<close> or \<open>call\<close>, and fails with \<open>Unsupported action\<close> otherwise.
\<close>

theorem executeIntent_timelock_boundary:
  assumes "intentId (intents ex iid) \<noteq> 0" and "status (intents ex iid) = Submitted"
    and "reentrancy_status ex \<noteq> ENTERED"
  shows "unat TIMELOCK_DURATION = 60
    \<and> (unat now < unat (submittedAt (intents ex iid)) + unat TIMELOCK_DURATION
        \<and> unat (submittedAt (intents ex iid)) + unat TIMELOCK_DURATION < 2 ^ 256
       \<longrightarrow> executeIntent keccak now iid p ex = Inl TimelockNotExpired)
    \<and> (unat (submittedAt (intents ex iid)) + unat TIMELOCK_DURATION \<le> unat now
        \<and> keccak (action pl) = actionHash (intents ex iid)
        \<and> targetAddress pl = recipient (intents ex iid)
        \<and> amount pl = valueWei (intents ex iid)
       \<longrightarrow> executeIntent keccak now iid (Some pl) ex =
            (if keccak (action pl) = keccak ''transfer'' \<or> keccak (action pl) = keccak ''call''
             then Inr ((), ex\<lparr>intents := (intents ex)(iid := (intents ex iid)\<lparr>status := Executed\<rparr>),
                              reentrancy_status := NOT_ENTERED\<rparr>)
             else Inl (Require ''Unsupported action'')))"
proof (intro conjI impI)
  show "unat TIMELOCK_DURATION = 60" by (rule unat_TIMELOCK)
next
  let ?ex = "ex\<lparr>reentrancy_status := ENTERED\<rparr>"
  assume "unat now < unat (submittedAt (intents ex iid)) + unat TIMELOCK_DURATION
        \<and> unat (submittedAt (intents ex iid)) + unat TIMELOCK_DURATION < 2 ^ 256"
  then have "executeIntent_body keccak now iid p ?ex = Inl TimelockNotExpired"
    using assms(1,2) by (intro executeIntent_body_locked) (simp_all add: unat_TIMELOCK)
  with assms(3) show "executeIntent keccak now iid p ex = Inl TimelockNotExpired"
    unfolding executeIntent_def by (rule nonReentrant_Inl)
next
  let ?ex = "ex\<lparr>reentrancy_status := ENTERED\<rparr>"
  assume h: "unat (submittedAt (intents ex iid)) + unat TIMELOCK_DURATION \<le> unat now
        \<and> keccak (action pl) = actionHash (intents ex iid)
        \<and> targetAddress pl = recipient (intents ex iid)
        \<and> amount pl = valueWei (intents ex iid)"
  have b: "executeIntent_body keccak now iid (Some pl) ?ex =
     (if keccak (action pl) = keccak ''transfer'' \<or> keccak (action pl) = keccak ''call''
      then Inr ((), ?ex\<lparr>intents := (intents ?ex)(iid := (intents ?ex iid)\<lparr>status := Executed\<rparr>)\<rparr>)
      else Inl (Require ''Unsupported action''))"
    using assms(1,2) h by (intro executeIntent_body_unlocked) (simp_all add: unat_TIMELOCK)
  show "executeIntent keccak now iid (Some pl) ex =
            (if keccak (action pl) = keccak ''transfer'' \<or> keccak (action pl) = keccak ''call''
             then Inr ((), ex\<lparr>intents := (intents ex)(iid := (intents ex iid)\<lparr>status := Executed\<rparr>),
                              reentrancy_status := NOT_ENTERED\<rparr>)
             else Inl (Require ''Unsupported action''))"
  proof (cases "keccak (action pl) = keccak ''transfer'' \<or> keccak (action pl) = keccak ''call''")
    case True
    with b have "executeIntent_body keccak now iid (Some pl) ?ex =
       Inr ((), ?ex\<lparr>intents := (intents ?ex)(iid := (intents ?ex iid)\<lparr>status := Executed\<rparr>)\<rparr>)"
      by simp
    from nonReentrant_ok [where body = "executeIntent_body keccak now iid (Some pl)" and ex = ex,
        OF assms(3) this] True show ?thesis
      by (simp add: executeIntent_def)
  next
    case False
    with b have "executeIntent_body keccak now iid (Some pl) ?ex = Inl (Require ''Unsupported action'')"
      by simp
    from nonReentrant_Inl [where body = "executeIntent_body keccak now iid (Some pl)" and ex = ex,
        OF assms(3) this] False show ?thesis
      by (simp add: executeIntent_def)
  qed
qed

text \<open>
  The witness: intent 100, submitted at 1700000100, is locked at 1700000159 and executed
  at 1700000160.
\<close>

theorem executeIntent_timelock_boundary_witness:
  "intentId (intents exSubmitted 100) \<noteq> 0 \<and> status (intents exSubmitted 100) = Submitted
   \<and> reentrancy_status exSubmitted \<noteq> ENTERED
   \<and> submittedAt (intents exSubmitted 100) = 1700000100
   \<and> executeIntent demoHash 1700000159 100 (Some transferPayload) exSubmitted = Inl TimelockNotExpired
   \<and> executeIntent demoHash 1700000160 100 (Some transferPayload) exSubmitted = Inr ((), exExecuted)
   \<and> status (intents exExecuted 100) = Executed"
proof -
  have h1: "intentId (intents exSubmitted 100) \<noteq> 0" by (simp add: exSubmitted_intent)
  have h2: "status (intents exSubmitted 100) = Submitted" by (simp add: exSubmitted_intent)
  have h3: "reentrancy_status exSubmitted \<noteq> ENTERED" by (simp add: exSubmitted_intent ENTERED_def)
  note locked = executeIntent_timelock_boundary [OF h1 h2 h3, where now = 1700000159
    and keccak = demoHash and p = "Some transferPayload"]
  note unlocked = executeIntent_timelock_boundary [OF h1 h2 h3, where now = 1700000160
    and keccak = demoHash and pl = transferPayload]
  from locked have a: "executeIntent demoHash 1700000159 100 (Some transferPayload) exSubmitted
      = Inl TimelockNotExpired"
    by (simp add: exSubmitted_intent)
  from unlocked have b: "executeIntent demoHash 1700000160 100 (Some transferPayload) exSubmitted
      = Inr ((), exExecuted)"
    by (simp add: exSubmitted_intent payload_fields exExecuted_eq)
  have c: "status (intents exExecuted 100) = Executed" by (simp add: demo_ex_defs)
  from h1 h2 h3 a b c show ?thesis by (simp add: exSubmitted_intent)
qed

text \<open>
  Where C5 as stated fails: intent 100 committed to the action \<open>swap\<close>, in status Submitted
  since 1700000100, and at 1700000160 a payload that matches it in action, recipient and
  amount. The call does not succeed: the dispatch rejects the action.
\<close>

theorem executeIntent_matching_payload_counterexample:
  "intentId (intents exSwapSubmitted 100) \<noteq> 0
   \<and> status (intents exSwapSubmitted 100) = Submitted
   \<and> reentrancy_status exSwapSubmitted \<noteq> ENTERED
   \<and> unat (submittedAt (intents exSwapSubmitted 100)) + 60 \<le> unat (1700000160 :: uint256)
   \<and> demoHash (action swapPayload) = actionHash (intents exSwapSubmitted 100)
   \<and> targetAddress swapPayload = recipient (intents exSwapSubmitted 100)
   \<and> amount swapPayload = valueWei (intents exSwapSubmitted 100)
   \<and> executeIntent demoHash 1700000160 100 (Some swapPayload) exSwapSubmitted
        = Inl (Require ''Unsupported action'')"
proof -
  have "executeIntent_body demoHash 1700000160 100 (Some swapPayload)
          (exSwapSubmitted\<lparr>reentrancy_status := ENTERED\<rparr>) = Inl (Require ''Unsupported action'')"
    by (simp add: executeIntent_body_def exSwapSubmitted_intent payload_fields checked_add_def
          TIMELOCK_DURATION_def)
  moreover have "reentrancy_status exSwapSubmitted \<noteq> ENTERED"
    by (simp add: exSwapSubmitted_intent ENTERED_def)
  ultimately have "executeIntent demoHash 1700000160 100 (Some swapPayload) exSwapSubmitted
        = Inl (Require ''Unsupported action'')"
    unfolding executeIntent_def by (intro nonReentrant_Inl)
  then show ?thesis by (simp add: exSwapSubmitted_intent payload_fields ENTERED_def)
qed

section \<open>Executed intents\<close>

lemma executeIntent_unsupported_fails:
  assumes "actionHash (intents ex iid) \<noteq> keccak ''transfer''"
    and "actionHash (intents ex iid) \<noteq> keccak ''call''"
  shows "\<exists>e. executeIntent keccak now iid p ex = Inl e"
proof (cases "executeIntent keccak now iid p ex")
  case (Inl e)
  then show ?thesis by blast
next
  case (Inr r)
  obtain u ex' where "r = (u, ex')" by (cases r)
  with Inr executeIntent_Inr [of keccak now iid p ex u ex'] assms show ?thesis by blast
qed

text \<open>
  Every call keeps the invariant: an intent in status Executed is committed to \<open>transfer\<close> or
  to \<open>call\<close>.
\<close>

lemma exec_keeps_executed_supported:
  assumes inv: "\<forall>k. status (intents (executor wd) k) = Executed \<longrightarrow>
                  actionHash (intents (executor wd) k) = keccak ''transfer''
                  \<or> actionHash (intents (executor wd) k) = keccak ''call''"
    and ex: "exec recover keccak self sender now c wd = Inr wd'"
  shows "\<forall>k. status (intents (executor wd') k) = Executed \<longrightarrow>
                  actionHash (intents (executor wd') k) = keccak ''transfer''
                  \<or> actionHash (intents (executor wd') k) = keccak ''call''"
proof (cases c)
  case (EmitIntent d sg)
  with ex obtain pe' ex' where
    e: "emitIntent recover now (registry wd) d sg (policy wd) (executor wd) = Inr (pe', ex')"
    and w: "wd' = wd\<lparr>policy := pe', executor := ex'\<rparr>"
    by (blast dest: exec_emit_Inr)
  from emitIntent_Inr [OF e]
  have "intents ex' = (intents (executor wd))(intentId d := newIntent d)" by blast
  with inv w show ?thesis by (simp add: newIntent_def)
next
  case (SubmitIntent iid)
  with ex obtain ex' where "submitIntent sender now iid (executor wd) = Inr ex'"
    and w: "wd' = wd\<lparr>executor := ex'\<rparr>"
    by (auto dest: onExecutor_Inr)
  from submitIntent_Inr [OF this(1)] inv w show ?thesis by simp
next
  case (ExecuteIntent iid p)
  with ex obtain ex' where e: "executeIntent keccak now iid p (executor wd) = Inr ((), ex')"
    and w: "wd' = wd\<lparr>executor := ex'\<rparr>"
    by (blast dest: exec_execute_Inr)
  note f = executeIntent_Inr [OF e]
  from f have i: "intents ex' = (intents (executor wd))(iid := (intents (executor wd) iid)\<lparr>status := Executed\<rparr>)"
    by blast
  from f have a: "actionHash (intents (executor wd) iid) = keccak ''transfer''
      \<or> actionHash (intents (executor wd) iid) = keccak ''call''" by blast
  from inv a show ?thesis unfolding w by (simp add: i)
next
  case (DisputeIntent iid reason)
  with ex obtain ex' where "disputeIntent iid reason (executor wd) = Inr ex'"
    and w: "wd' = wd\<lparr>executor := ex'\<rparr>"
    by (auto dest: onExecutor_Inr)
  from disputeIntent_Inr [OF this(1)] inv w show ?thesis by simp
next
  case (CheckPolicy aid v rcp maxDay maxHour maxTx wl)
  with ex have "executor wd' = executor wd" by (simp add: exec_checkPolicy_Inr)
  with inv show ?thesis by simp
qed (use inv ex in \<open>auto dest!: onExecutor_Inr onRegistry_Inr onPolicy_Inr
      authorizeRelayer_Inr revokeRelayer_Inr registerRelayer_Inr
      unregisterRelayer_Inr updateRelayerReputation_Inr\<close>)

lemma step_keeps_executed_supported:
  assumes "\<forall>k. status (intents (executor wd) k) = Executed \<longrightarrow>
                  actionHash (intents (executor wd) k) = keccak ''transfer''
                  \<or> actionHash (intents (executor wd) k) = keccak ''call''"
  shows "\<forall>k. status (intents (executor (step recover keccak self t wd)) k) = Executed \<longrightarrow>
                  actionHash (intents (executor (step recover keccak self t wd)) k) = keccak ''transfer''
                  \<or> actionHash (intents (executor (step recover keccak self t wd)) k) = keccak ''call''"
proof -
  obtain sender now c where t: "t = (sender, now, c)" by (cases t)
  show ?thesis
  proof (cases "exec recover keccak self sender now c wd")
    case (Inl e)
    with assms show ?thesis by (simp add: t step_Inl)
  next
    case (Inr wd')
    from exec_keeps_executed_supported [OF assms Inr] Inr show ?thesis
      by (simp add: t step_Inr)
  qed
qed

lemma run_keeps_executed_supported:
  assumes "\<forall>k. status (intents (executor wd) k) = Executed \<longrightarrow>
                  actionHash (intents (executor wd) k) = keccak ''transfer''
                  \<or> actionHash (intents (executor wd) k) = keccak ''call''"
  shows "\<forall>k. status (intents (executor (run recover keccak self txs wd)) k) = Executed \<longrightarrow>
                  actionHash (intents (executor (run recover keccak self txs wd)) k) = keccak ''transfer''
                  \<or> actionHash (intents (executor (run recover keccak self txs wd)) k) = keccak ''call''"
  using assms
proof (induction txs arbitrary: wd)
  case Nil
  then show ?case by simp
next
  case (Cons t ts)
  from Cons.IH [OF step_keeps_executed_supported [OF Cons.prems]] show ?case by simp
qed

text \<open>
  C10. An intent whose committed \<open>actionHash\<close> is neither the hash of \<open>transfer\<close> nor the
  hash of \<open>call\<close> cannot be executed: every \<open>executeIntent\<close> on it reverts (a payload either
  fails to match the hash or matches it and is rejected by the dispatch). So in every state
  reached from the deployed system no such intent has status Executed.
\<close>

theorem unsupported_action_never_executed:
  "(actionHash (intents ex iid) \<noteq> keccak ''transfer''
      \<and> actionHash (intents ex iid) \<noteq> keccak ''call''
     \<longrightarrow> (\<exists>e. executeIntent keccak now iid p ex = Inl e))
   \<and> (status (intents (executor (run recover keccak self txs (initWorld deployer regAddr polAddr))) k)
        = Executed
     \<longrightarrow> actionHash (intents (executor (run recover keccak self txs (initWorld deployer regAddr polAddr))) k)
          = keccak ''transfer''
        \<or> actionHash (intents (executor (run recover keccak self txs (initWorld deployer regAddr polAddr))) k)
          = keccak ''call'')"
proof -
  have "\<forall>k. status (intents (executor (initWorld deployer regAddr polAddr)) k) = Executed \<longrightarrow>
          actionHash (intents (executor (initWorld deployer regAddr polAddr)) k) = keccak ''transfer''
          \<or> actionHash (intents (executor (initWorld deployer regAddr polAddr)) k) = keccak ''call''"
    by (simp add: initWorld_def CrossChainExecutor_constructor_def zeroIntent_def)
  from run_keeps_executed_supported [OF this, of recover self txs]
    executeIntent_unsupported_fails [of ex iid keccak now p]
  show ?thesis by blast
qed

lemma authorize_demo: "authorizeRelayer 2 12 demoEx1 = Inr exAuthorized"
  by (simp add: authorizeRelayer_def exAuthorized_def demoEx1_def demoEx0_def
        CrossChainExecutor_constructor_def)

lemma submit_demo: "submitIntent 12 1700000100 100 exAuthorized = Inr exSubmitted"
  by (simp add: submitIntent_def exSubmitted_def exAuthorized_def demoEx1_def demoEx0_def
        CrossChainExecutor_constructor_def newIntent_def demoIntent_def)

lemma execute_demo:
  "executeIntent demoHash 1700000160 100 (Some transferPayload) exSubmitted = Inr ((), exExecuted)"
proof -
  have "executeIntent_body demoHash 1700000160 100 (Some transferPayload)
          (exSubmitted\<lparr>reentrancy_status := ENTERED\<rparr>)
        = Inr ((), exSubmitted\<lparr>reentrancy_status := ENTERED,
             intents := (intents exSubmitted)(100 := (intents exSubmitted 100)\<lparr>status := Executed\<rparr>)\<rparr>)"
    by (simp add: executeIntent_body_def exSubmitted_intent payload_fields checked_add_def
          TIMELOCK_DURATION_def)
  moreover have "reentrancy_status exSubmitted \<noteq> ENTERED"
    by (simp add: exSubmitted_intent ENTERED_def)
  ultimately have "executeIntent demoHash 1700000160 100 (Some transferPayload) exSubmitted
     = Inr ((), exSubmitted\<lparr>reentrancy_status := ENTERED,
             intents := (intents exSubmitted)(100 := (intents exSubmitted 100)\<lparr>status := Executed\<rparr>),
             reentrancy_status := NOT_ENTERED\<rparr>)"
    unfolding executeIntent_def
    by (intro nonReentrant_ok [where body = "executeIntent_body demoHash 1700000160 100 (Some transferPayload)"])
  then show ?thesis using exExecuted_eq by simp
qed

lemma demo_run_exec:
  "run demoRecover demoHash 4 demoTxsExec (initWorld 1 2 3) = world2\<lparr>executor := exExecuted\<rparr>"
  unfolding demoTxsExec_def
  by (simp add: step_def state_after_def exec_register_demo exec_emit_first del: exec.simps)
     (simp add: world2_def onExecutor_def authorize_demo submit_demo execute_demo)

text \<open>
  The witness: the intent committed to \<open>swap\<close> cannot be executed, and the intent the run
  \<open>demoTxsExec\<close> executes is committed to \<open>transfer\<close>.
\<close>

theorem unsupported_action_never_executed_witness:
  "actionHash (intents exSwapSubmitted 100) \<noteq> demoHash ''transfer''
   \<and> actionHash (intents exSwapSubmitted 100) \<noteq> demoHash ''call''
   \<and> (\<exists>e. executeIntent demoHash 1700000160 100 (Some swapPayload) exSwapSubmitted = Inl e)
   \<and> status (intents (executor (run demoRecover demoHash 4 demoTxsExec (initWorld 1 2 3))) 100) = Executed
   \<and> actionHash (intents (executor (run demoRecover demoHash 4 demoTxsExec (initWorld 1 2 3))) 100)
        = demoHash ''transfer''"
proof -
  have h1: "actionHash (intents exSwapSubmitted 100) \<noteq> demoHash ''transfer''"
    and h2: "actionHash (intents exSwapSubmitted 100) \<noteq> demoHash ''call''"
    by (simp_all add: exSwapSubmitted_intent payload_fields)
  have h3: "status (intents (executor (run demoRecover demoHash 4 demoTxsExec (initWorld 1 2 3))) 100)
      = Executed"
    by (simp add: demo_run_exec exExecuted_def)
  have h4: "demoHash ''transfer'' \<noteq> demoHash ''call''" by (simp add: payload_fields)
  note t = unsupported_action_never_executed [where ex = exSwapSubmitted and iid = 100
    and keccak = demoHash and now = 1700000160 and p = "Some swapPayload" and recover = demoRecover
    and self = 4 and txs = demoTxsExec and deployer = 1 and regAddr = 2 and polAddr = 3 and k = 100]
  from t h1 h2 have a: "\<exists>e. executeIntent demoHash 1700000160 100 (Some swapPayload) exSwapSubmitted = Inl e"
    by blast
  from t h3 have "actionHash (intents (executor (run demoRecover demoHash 4 demoTxsExec (initWorld 1 2 3))) 100)
        = demoHash ''transfer''
      \<or> actionHash (intents (executor (run demoRecover demoHash 4 demoTxsExec (initWorld 1 2 3))) 100)
        = demoHash ''call''"
    by blast
  moreover have "actionHash (intents (executor (run demoRecover demoHash 4 demoTxsExec (initWorld 1 2 3))) 100)
        \<noteq> demoHash ''call''"
    by (simp add: demo_run_exec demo_ex_defs)
  ultimately have b: "actionHash (intents (executor (run demoRecover demoHash 4 demoTxsExec (initWorld 1 2 3))) 100)
        = demoHash ''transfer''" by blast
  from h1 h2 h3 a b show ?thesis by blast
qed

section \<open>Disputes\<close>

text \<open>
  C4 on the code: \<open>disputeIntent\<close> has the one gate \<open>IntentNotFound\<close>. Intent 100 is in status
  Pending in \<open>demoEx1\<close>; disputing it with the empty reason succeeds and sets it to Disputed.
\<close>

theorem disputeIntent_pending_empty_reason:
  "status (intents demoEx1 100) = Pending
   \<and> disputeIntent 100 [] demoEx1
        = Inr (demoEx1\<lparr>intents := (intents demoEx1)(100 := (intents demoEx1 100)\<lparr>status := Disputed\<rparr>)\<rparr>)
   \<and> disputeIntent 55 ''wrong recipient'' demoEx1 = Inl IntentNotFound"
  by (simp add: disputeIntent_def demoEx1_def demoEx0_def CrossChainExecutor_constructor_def
        newIntent_def demoIntent_def zeroIntent_def)

section \<open>Duplicate intent ids\<close>

lemma emit_zero_first:
  "emitIntent demoRecover 1700000000 demoRegistry (demoIntent 0 0) demoSig
     (PolicyEngine_constructor 1) demoEx0 = Inr (afterChecks 5 1, exZeroId1)"
  by (simp add: ex_defs check_first_emit demoRecover_def demoSig_def demoRegistry_def
        demoAgent_def demoIntent_def demoEx0_def exZeroId1_def AgentRegistry_constructor_def
        checked_add_def)

lemma emit_zero_second:
  "emitIntent demoRecover 1700000010 demoRegistry (demoIntent 0 1) demoSig
     (afterChecks 5 1) exZeroId1 = Inr (afterChecks 10 2, exZeroId2)"
  by (simp add: ex_defs check_second_emit demoRecover_def demoSig_def demoRegistry_def
        demoAgent_def demoIntent_def demoEx0_def exZeroId1_def exZeroId2_def
        AgentRegistry_constructor_def checked_add_def)

lemma emit_duplicate_100:
  "emitIntent demoRecover 1700000010 demoRegistry (demoIntent 100 1) demoSig
     (afterChecks 5 1) demoEx1 = Inl IntentAlreadyExists"
  by (rule emitIntent_exists)
     (simp_all add: demoEx1_def demoEx0_def demoIntent_def CrossChainExecutor_constructor_def
        newIntent_def NOT_ENTERED_def ENTERED_def)

text \<open>
  C6 on the code. The existence test of \<open>emitIntent\<close> reads the stored \<open>intentId\<close> field,
  which is zero both for a slot never written and for a stored intent whose id is zero. So
  an intent emitted with id 0 is never seen as existing (\<open>getIntent\<close> answers
  \<open>IntentNotFound\<close> for it), and a second emission with id 0 and the next nonce succeeds and
  overwrites the first. For the nonzero id 100 the second emission is rejected with
  \<open>IntentAlreadyExists\<close>.
\<close>

theorem emitIntent_zero_id_twice:
  "emitIntent demoRecover 1700000000 demoRegistry (demoIntent 0 0) demoSig
     (PolicyEngine_constructor 1) demoEx0 = Inr (afterChecks 5 1, exZeroId1)
   \<and> intents exZeroId1 0 = newIntent (demoIntent 0 0)
   \<and> getIntent exZeroId1 0 = Inl IntentNotFound
   \<and> emitIntent demoRecover 1700000010 demoRegistry (demoIntent 0 1) demoSig
        (afterChecks 5 1) exZeroId1 = Inr (afterChecks 10 2, exZeroId2)
   \<and> intents exZeroId2 0 = newIntent (demoIntent 0 1)
   \<and> emitIntent demoRecover 1700000010 demoRegistry (demoIntent 100 1) demoSig
        (afterChecks 5 1) demoEx1 = Inl IntentAlreadyExists"
proof -
  have "intents exZeroId1 0 = newIntent (demoIntent 0 0)"
    and "intents exZeroId2 0 = newIntent (demoIntent 0 1)"
    and "getIntent exZeroId1 0 = Inl IntentNotFound"
    by (simp_all add: exZeroId1_def exZeroId2_def getIntent_def newIntent_def demoIntent_def)
  with emit_zero_first emit_zero_second emit_duplicate_100 show ?thesis by simp
qed

section \<open>Wallet bindings\<close>

lemma register_zero_agent:
  "registerAgent 11 1700000000 0 10 [] [] demoPolicy AgentRegistry_constructor = Inr regZeroAgent"
  by (simp add: registerAgent_def regZeroAgent_def demoAgent_def AgentRegistry_constructor_def)

lemma register_shared_wallet:
  "registerAgent 12 1700000500 5 10 [] [] demoPolicy regZeroAgent = Inr regSharedWallet"
  by (simp add: registerAgent_def regZeroAgent_def regSharedWallet_def demoAgent_def
        AgentRegistry_constructor_def)

lemma register_bound_wallet:
  "registerAgent 12 1700000500 5 10 [] [] demoPolicy demoRegistry = Inl WalletAlreadyBound"
  by (simp add: registerAgent_def demoRegistry_def demoAgent_def AgentRegistry_constructor_def)

text \<open>
  C7 on the code. \<open>registerAgent\<close> takes a wallet as bound when \<open>walletToAgentId\<close> holds a
  nonzero agent id for it. Registering the agent with the zero id writes zero there, so
  wallet 10 still counts as unbound, and a second registration binds the same wallet to
  agent 5: two active agents then share one signing wallet, and the reverse lookup of the
  wallet has moved from agent 0 to agent 5. With the nonzero agent id 7 the second
  registration is rejected with \<open>WalletAlreadyBound\<close>.
\<close>

theorem registerAgent_zero_id_rebinds_wallet:
  "registerAgent 11 1700000000 0 10 [] [] demoPolicy AgentRegistry_constructor = Inr regZeroAgent
   \<and> getAgent regZeroAgent 0 = Inr demoAgent
   \<and> wallet demoAgent = 10
   \<and> getAgentIdByWallet regZeroAgent 10 = 0
   \<and> registerAgent 12 1700000500 5 10 [] [] demoPolicy regZeroAgent = Inr regSharedWallet
   \<and> wallet (agents regSharedWallet 0) = 10 \<and> isAgentActive regSharedWallet 0
   \<and> wallet (agents regSharedWallet 5) = 10 \<and> isAgentActive regSharedWallet 5
   \<and> getAgentIdByWallet regSharedWallet 10 = 5
   \<and> registerAgent 12 1700000500 5 10 [] [] demoPolicy demoRegistry = Inl WalletAlreadyBound"
proof -
  have "getAgent regZeroAgent 0 = Inr demoAgent" "wallet demoAgent = 10"
    "getAgentIdByWallet regZeroAgent 10 = 0"
    "wallet (agents regSharedWallet 0) = 10" "isAgentActive regSharedWallet 0"
    "wallet (agents regSharedWallet 5) = 10" "isAgentActive regSharedWallet 5"
    "getAgentIdByWallet regSharedWallet 10 = 5"
    by (simp_all add: getAgent_def getAgentIdByWallet_def isAgentActive_def regZeroAgent_def
          regSharedWallet_def demoAgent_def AgentRegistry_constructor_def)
  with register_zero_agent register_shared_wallet register_bound_wallet show ?thesis by simp
qed

text \<open>
  For nonzero agent ids the binding is as the spec has it: along every registration the
  reverse lookup of a bound wallet is kept, and a bound wallet is the wallet of the agent it
  points to.
\<close>

lemma registerAgent_Inr:
  "registerAgent sender now aid w pk cid pol s = Inr s' \<Longrightarrow>
   wallet (agents s aid) = 0 \<and> w \<noteq> 0 \<and> walletToAgentId s w = 0 \<and>
   s' = s\<lparr> agents := (agents s)(aid :=
                       \<lparr> owner = sender, wallet = w, publicKey = pk, metadataCID = cid,
                         active = True, registeredAt = now \<rparr>),
                   policies := (policies s)(aid := pol),
                   walletToAgentId := (walletToAgentId s)(w := aid) \<rparr>"
  by (simp add: registerAgent_def split: if_splits)

lemma registerAgent_errors:
  "wallet (agents s aid) \<noteq> 0 \<Longrightarrow> registerAgent sender now aid w pk cid pol s = Inl AgentAlreadyExists"
  "wallet (agents s aid) = 0 \<Longrightarrow> w = 0 \<Longrightarrow>
     registerAgent sender now aid w pk cid pol s = Inl InvalidWalletAddress"
  "wallet (agents s aid) = 0 \<Longrightarrow> w \<noteq> 0 \<Longrightarrow> walletToAgentId s w \<noteq> 0 \<Longrightarrow>
     registerAgent sender now aid w pk cid pol s = Inl WalletAlreadyBound"
  by (simp_all add: registerAgent_def)

lemma registry_owner_calls_keep_binding:
  "updateMetadata sender aid cid s = Inr s' \<Longrightarrow> walletToAgentId s' = walletToAgentId s"
  "updatePolicy sender aid pol s = Inr s' \<Longrightarrow> walletToAgentId s' = walletToAgentId s"
  "deactivateAgent sender aid s = Inr s' \<Longrightarrow> walletToAgentId s' = walletToAgentId s"
  "reactivateAgent sender aid s = Inr s' \<Longrightarrow> walletToAgentId s' = walletToAgentId s"
  by (auto simp: updateMetadata_def updatePolicy_def deactivateAgent_def reactivateAgent_def
        split: option.splits)

lemma registerAgent_keeps_bound_wallet:
  "registerAgent sender now aid w pk cid pol s = Inr s' \<Longrightarrow> walletToAgentId s w' \<noteq> 0 \<Longrightarrow>
   walletToAgentId s' w' = walletToAgentId s w'"
  by (auto dest!: registerAgent_Inr)

section \<open>Relayer reputation\<close>

lemma checked_sub_Inr:
  "checked_sub a b = Inr c \<Longrightarrow> c = a - b \<and> unat c = unat a - unat b \<and> unat b \<le> unat a"
  by (auto simp: checked_sub_def unat_sub word_le_nat_alt split: if_splits)

lemma reputationUpdate_success:
  assumes "reputationUpdate now True info = Inr info'"
  shows "unat (intentsProcessed info') = unat (intentsProcessed info) + 1
     \<and> unat (successfulExecutions info') = unat (successfulExecutions info) + 1
     \<and> unat (reputationScore info')
          = (if unat (reputationScore info) < 200 then unat (reputationScore info) + 1
             else unat (reputationScore info))
     \<and> lastActive info' = now \<and> isActive info' = isActive info
     \<and> stakeAmount info' = stakeAmount info \<and> relayerAddress info' = relayerAddress info"
  using assms unfolding reputationUpdate_def
  by (auto simp: word_less_nat_alt split: sum.splits if_splits dest!: checked_add_Inr)

lemma reputationUpdate_failure:
  assumes "reputationUpdate now False info = Inr info'"
  shows "unat (intentsProcessed info') = unat (intentsProcessed info) + 1
     \<and> successfulExecutions info' = successfulExecutions info
     \<and> unat (reputationScore info')
          = (if 10 < unat (reputationScore info) then unat (reputationScore info) - 5
             else unat (reputationScore info))
     \<and> lastActive info' = now \<and> isActive info' = isActive info
     \<and> stakeAmount info' = stakeAmount info \<and> relayerAddress info' = relayerAddress info"
  using assms unfolding reputationUpdate_def
  by (auto simp: word_less_nat_alt split: sum.splits if_splits
        dest!: checked_add_Inr checked_sub_Inr)

lemma reputationUpdate_range:
  assumes "reputationUpdate now success info = Inr info'"
    and "6 \<le> unat (reputationScore info)" and "unat (reputationScore info) \<le> 200"
  shows "6 \<le> unat (reputationScore info') \<and> unat (reputationScore info') \<le> 200
         \<and> isActive info' = isActive info"
proof (cases success)
  case True
  with assms(1) reputationUpdate_success [of now info info'] assms(2,3) show ?thesis
    by (auto split: if_splits)
next
  case False
  with assms(1) reputationUpdate_failure [of now info info'] assms(2,3) show ?thesis
    by (auto split: if_splits)
qed


text \<open>Every call keeps the reputation of every active relayer between 6 and 200.\<close>

lemma exec_keeps_reputation_range:
  assumes inv: "\<forall>q. isActive (relayerInfo (executor wd) q) \<longrightarrow>
                  6 \<le> unat (reputationScore (relayerInfo (executor wd) q))
                  \<and> unat (reputationScore (relayerInfo (executor wd) q)) \<le> 200"
    and ex: "exec recover keccak self sender now c wd = Inr wd'"
  shows "\<forall>q. isActive (relayerInfo (executor wd') q) \<longrightarrow>
                  6 \<le> unat (reputationScore (relayerInfo (executor wd') q))
                  \<and> unat (reputationScore (relayerInfo (executor wd') q)) \<le> 200"
proof (cases c)
  case (EmitIntent d sg)
  with ex obtain pe' ex' where
    e: "emitIntent recover now (registry wd) d sg (policy wd) (executor wd) = Inr (pe', ex')"
    and w: "wd' = wd\<lparr>policy := pe', executor := ex'\<rparr>"
    by (blast dest: exec_emit_Inr)
  from emitIntent_Inr [OF e] have "relayerInfo ex' = relayerInfo (executor wd)" by blast
  with inv w show ?thesis by simp
next
  case (ExecuteIntent iid p)
  with ex obtain ex' where e: "executeIntent keccak now iid p (executor wd) = Inr ((), ex')"
    and w: "wd' = wd\<lparr>executor := ex'\<rparr>"
    by (blast dest: exec_execute_Inr)
  from executeIntent_Inr [OF e] have "relayerInfo ex' = relayerInfo (executor wd)" by blast
  with inv w show ?thesis by simp
next
  case (CheckPolicy aid v rcp maxDay maxHour maxTx wl)
  with ex have "executor wd' = executor wd" by (simp add: exec_checkPolicy_Inr)
  with inv show ?thesis by simp
next
  case (RegisterRelayer msgValue stake)
  with ex obtain ex' where "registerRelayer sender now msgValue stake (executor wd) = Inr ex'"
    and w: "wd' = wd\<lparr>executor := ex'\<rparr>"
    by (auto dest: onExecutor_Inr)
  from registerRelayer_Inr [OF this(1)] inv w show ?thesis by simp
next
  case (UnregisterRelayer ok)
  with ex obtain ex' where "unregisterRelayer sender ok (executor wd) = Inr ex'"
    and w: "wd' = wd\<lparr>executor := ex'\<rparr>"
    by (auto dest: onExecutor_Inr)
  from unregisterRelayer_Inr [OF this(1)] inv w show ?thesis by simp
next
  case (UpdateRelayerReputation r success)
  with ex obtain ex' where
    "updateRelayerReputation sender self now r success (executor wd) = Inr ex'"
    and w: "wd' = wd\<lparr>executor := ex'\<rparr>"
    by (auto dest: onExecutor_Inr)
  from updateRelayerReputation_Inr [OF this(1)] obtain info where
    a: "isActive (relayerInfo (executor wd) r)"
    and u: "reputationUpdate now success (relayerInfo (executor wd) r) = Inr info"
    and e: "ex' = (executor wd)\<lparr>relayerInfo := (relayerInfo (executor wd))(r := info)\<rparr>"
    by blast
  from inv a have "6 \<le> unat (reputationScore (relayerInfo (executor wd) r))"
    and "unat (reputationScore (relayerInfo (executor wd) r)) \<le> 200" by simp_all
  from reputationUpdate_range [OF u this]
  have "6 \<le> unat (reputationScore info) \<and> unat (reputationScore info) \<le> 200" by simp
  with inv show ?thesis unfolding w e by simp
qed (use inv ex in \<open>auto dest!: onExecutor_Inr onRegistry_Inr onPolicy_Inr submitIntent_Inr
      disputeIntent_Inr authorizeRelayer_Inr revokeRelayer_Inr\<close>)

lemma run_keeps_reputation_range:
  assumes "\<forall>q. isActive (relayerInfo (executor wd) q) \<longrightarrow>
                  6 \<le> unat (reputationScore (relayerInfo (executor wd) q))
                  \<and> unat (reputationScore (relayerInfo (executor wd) q)) \<le> 200"
  shows "\<forall>q. isActive (relayerInfo (executor (run recover keccak self txs wd)) q) \<longrightarrow>
           6 \<le> unat (reputationScore (relayerInfo (executor (run recover keccak self txs wd)) q))
           \<and> unat (reputationScore (relayerInfo (executor (run recover keccak self txs wd)) q)) \<le> 200"
  using assms
proof (induction txs arbitrary: wd)
  case Nil
  then show ?case by simp
next
  case (Cons t ts)
  obtain sender now c where t: "t = (sender, now, c)" by (cases t)
  have "\<forall>q. isActive (relayerInfo (executor (step recover keccak self t wd)) q) \<longrightarrow>
           6 \<le> unat (reputationScore (relayerInfo (executor (step recover keccak self t wd)) q))
           \<and> unat (reputationScore (relayerInfo (executor (step recover keccak self t wd)) q)) \<le> 200"
  proof (cases "exec recover keccak self sender now c wd")
    case (Inl e)
    with Cons.prems show ?thesis by (simp add: t step_Inl)
  next
    case (Inr wd')
    from exec_keeps_reputation_range [OF Cons.prems Inr] Inr show ?thesis
      by (simp add: t step_Inr)
  qed
  from Cons.IH [OF this] show ?case by simp
qed


lemmas rel_defs = exRelayer0_def exRelayer1_def exRelayer2_def newRelayer_def demoEx0_def
  CrossChainExecutor_constructor_def zeroRelayerInfo_def

lemma authorize_relayer_demo: "authorizeRelayer 2 12 demoEx0 = Inr exRelayer0"
  by (simp add: authorizeRelayer_def rel_defs)

lemma register_relayer_demo:
  "registerRelayer 12 1700000060 100000000000000000 100000000000000000 exRelayer0 = Inr exRelayer1"
  by (simp add: registerRelayer_def rel_defs)

lemma report_failure_demo:
  "updateRelayerReputation 12 4 1700000070 12 False exRelayer1 = Inr exRelayer2"
  by (simp add: updateRelayerReputation_def reputationUpdate_def checked_add_def checked_sub_def
        rel_defs)

lemma report_success_demo:
  "updateRelayerReputation 12 4 1700000070 12 True exRelayer1
     = Inr (exRelayer1\<lparr> relayerInfo := (relayerInfo exRelayer1)(12 :=
                   newRelayer\<lparr>intentsProcessed := 1, successfulExecutions := 1,
                              reputationScore := 101, lastActive := 1700000070\<rparr>) \<rparr>)"
  by (simp add: updateRelayerReputation_def reputationUpdate_def checked_add_def checked_sub_def
        rel_defs)

lemma demo_run_relayer:
  "run demoRecover demoHash 4 demoTxsRelayer (initWorld 1 2 3)
     = (initWorld 1 2 3)\<lparr>executor := exRelayer2\<rparr>"
  unfolding demoTxsRelayer_def
  by (simp add: step_def state_after_def onExecutor_def initWorld_def demoEx0_def [symmetric]
        authorize_relayer_demo register_relayer_demo report_failure_demo)

lemma failure_at_11: "reputationUpdate 1700000070 False (repInfo 11)
   = Inr ((repInfo 11)\<lparr>intentsProcessed := 21, reputationScore := 6, lastActive := 1700000070\<rparr>)"
  by (simp add: reputationUpdate_def checked_add_def checked_sub_def repInfo_def)

lemma failure_at_10: "reputationUpdate 1700000070 False (repInfo 10)
   = Inr ((repInfo 10)\<lparr>intentsProcessed := 21, lastActive := 1700000070\<rparr>)"
  by (simp add: reputationUpdate_def checked_add_def checked_sub_def repInfo_def)

text \<open>
  C8 as the code has it. A successful \<open>updateRelayerReputation\<close> is on an active relayer
  and changes that relayer's record only. With \<open>success\<close> it adds 1 to the processed and to
  the success counter and raises the reputation by exactly 1 unless it is 200 or more. With
  a failure it adds 1 to the processed counter and lowers the reputation by exactly 5 when
  it is above 10, and leaves it as it is otherwise. Both set \<open>lastActive\<close> to the block
  timestamp. Along every run from the deployed system the reputation of every active
  relayer stays between 6 and 200.
\<close>

theorem updateRelayerReputation_bounds:
  "(updateRelayerReputation sender self now r True ex = Inr ex'
      \<longrightarrow> isActive (relayerInfo ex r)
        \<and> unat (intentsProcessed (relayerInfo ex' r)) = unat (intentsProcessed (relayerInfo ex r)) + 1
        \<and> unat (successfulExecutions (relayerInfo ex' r))
             = unat (successfulExecutions (relayerInfo ex r)) + 1
        \<and> unat (reputationScore (relayerInfo ex' r))
             = (if unat (reputationScore (relayerInfo ex r)) < 200
                then unat (reputationScore (relayerInfo ex r)) + 1
                else unat (reputationScore (relayerInfo ex r)))
        \<and> lastActive (relayerInfo ex' r) = now
        \<and> (\<forall>q. q \<noteq> r \<longrightarrow> relayerInfo ex' q = relayerInfo ex q))
   \<and> (updateRelayerReputation sender self now r False ex = Inr ex'
      \<longrightarrow> isActive (relayerInfo ex r)
        \<and> unat (intentsProcessed (relayerInfo ex' r)) = unat (intentsProcessed (relayerInfo ex r)) + 1
        \<and> successfulExecutions (relayerInfo ex' r) = successfulExecutions (relayerInfo ex r)
        \<and> unat (reputationScore (relayerInfo ex' r))
             = (if 10 < unat (reputationScore (relayerInfo ex r))
                then unat (reputationScore (relayerInfo ex r)) - 5
                else unat (reputationScore (relayerInfo ex r)))
        \<and> lastActive (relayerInfo ex' r) = now
        \<and> (\<forall>q. q \<noteq> r \<longrightarrow> relayerInfo ex' q = relayerInfo ex q))
   \<and> (isActive (relayerInfo (executor (run recover keccak self txs (initWorld deployer regAddr polAddr))) q)
      \<longrightarrow> 6 \<le> unat (reputationScore
                  (relayerInfo (executor (run recover keccak self txs (initWorld deployer regAddr polAddr))) q))
        \<and> unat (reputationScore
                  (relayerInfo (executor (run recover keccak self txs (initWorld deployer regAddr polAddr))) q))
            \<le> 200)"
proof (intro conjI impI)
  assume u: "updateRelayerReputation sender self now r True ex = Inr ex'"
  from updateRelayerReputation_Inr [OF u] obtain info where
    a: "isActive (relayerInfo ex r)"
    and i: "reputationUpdate now True (relayerInfo ex r) = Inr info"
    and e: "ex' = ex\<lparr>relayerInfo := (relayerInfo ex)(r := info)\<rparr>"
    by blast
  from e have g: "relayerInfo ex' r = info" by simp
  from a show "isActive (relayerInfo ex r)" .
  from reputationUpdate_success [OF i] g
  show "unat (intentsProcessed (relayerInfo ex' r)) = unat (intentsProcessed (relayerInfo ex r)) + 1"
    and "unat (successfulExecutions (relayerInfo ex' r))
             = unat (successfulExecutions (relayerInfo ex r)) + 1"
    and "unat (reputationScore (relayerInfo ex' r))
             = (if unat (reputationScore (relayerInfo ex r)) < 200
                then unat (reputationScore (relayerInfo ex r)) + 1
                else unat (reputationScore (relayerInfo ex r)))"
    and "lastActive (relayerInfo ex' r) = now"
    by simp_all
  from e show "\<forall>q. q \<noteq> r \<longrightarrow> relayerInfo ex' q = relayerInfo ex q" by simp
next
  assume u: "updateRelayerReputation sender self now r False ex = Inr ex'"
  from updateRelayerReputation_Inr [OF u] obtain info where
    a: "isActive (relayerInfo ex r)"
    and i: "reputationUpdate now False (relayerInfo ex r) = Inr info"
    and e: "ex' = ex\<lparr>relayerInfo := (relayerInfo ex)(r := info)\<rparr>"
    by blast
  from e have g: "relayerInfo ex' r = info" by simp
  from a show "isActive (relayerInfo ex r)" .
  from reputationUpdate_failure [OF i] g
  show "unat (intentsProcessed (relayerInfo ex' r)) = unat (intentsProcessed (relayerInfo ex r)) + 1"
    and "successfulExecutions (relayerInfo ex' r) = successfulExecutions (relayerInfo ex r)"
    and "unat (reputationScore (relayerInfo ex' r))
             = (if 10 < unat (reputationScore (relayerInfo ex r))
                then unat (reputationScore (relayerInfo ex r)) - 5
                else unat (reputationScore (relayerInfo ex r)))"
    and "lastActive (relayerInfo ex' r) = now"
    by simp_all
  from e show "\<forall>q. q \<noteq> r \<longrightarrow> relayerInfo ex' q = relayerInfo ex q" by simp
next
  let ?w = "run recover keccak self txs (initWorld deployer regAddr polAddr)"
  assume act: "isActive (relayerInfo (executor ?w) q)"
  have "\<forall>q. isActive (relayerInfo (executor (initWorld deployer regAddr polAddr)) q) \<longrightarrow>
          6 \<le> unat (reputationScore (relayerInfo (executor (initWorld deployer regAddr polAddr)) q))
          \<and> unat (reputationScore (relayerInfo (executor (initWorld deployer regAddr polAddr)) q)) \<le> 200"
    by (simp add: initWorld_def CrossChainExecutor_constructor_def zeroRelayerInfo_def)
  from run_keeps_reputation_range [OF this, of recover keccak self txs] act
  show "6 \<le> unat (reputationScore (relayerInfo (executor ?w) q))"
    and "unat (reputationScore (relayerInfo (executor ?w) q)) \<le> 200"
    by blast+
qed


text \<open>
  The witness: relayer 12, registered with reputation 100, goes to 101 on a success and to
  95 on a failure; at the end of the run \<open>demoTxsRelayer\<close> it is active with reputation 95.
\<close>

theorem updateRelayerReputation_bounds_witness:
  "updateRelayerReputation 12 4 1700000070 12 True exRelayer1
     = Inr (exRelayer1\<lparr> relayerInfo := (relayerInfo exRelayer1)(12 :=
                   newRelayer\<lparr>intentsProcessed := 1, successfulExecutions := 1,
                              reputationScore := 101, lastActive := 1700000070\<rparr>) \<rparr>)
   \<and> updateRelayerReputation 12 4 1700000070 12 False exRelayer1 = Inr exRelayer2
   \<and> unat (reputationScore (relayerInfo exRelayer1 12)) = 100
   \<and> unat (reputationScore (relayerInfo exRelayer2 12)) = 95
   \<and> unat (intentsProcessed (relayerInfo exRelayer2 12)) = 1
   \<and> lastActive (relayerInfo exRelayer2 12) = 1700000070
   \<and> isActive (relayerInfo (executor (run demoRecover demoHash 4 demoTxsRelayer (initWorld 1 2 3))) 12)
   \<and> 6 \<le> unat (reputationScore
               (relayerInfo (executor (run demoRecover demoHash 4 demoTxsRelayer (initWorld 1 2 3))) 12))
   \<and> unat (reputationScore
               (relayerInfo (executor (run demoRecover demoHash 4 demoTxsRelayer (initWorld 1 2 3))) 12))
        \<le> 200"
proof -
  have r0: "unat (reputationScore (relayerInfo exRelayer1 12)) = 100"
    and p0: "unat (intentsProcessed (relayerInfo exRelayer1 12)) = 0"
    by (simp_all add: rel_defs)
  note t = updateRelayerReputation_bounds [where sender = 12 and self = 4 and now = 1700000070
    and r = 12 and ex = exRelayer1 and ex' = exRelayer2 and recover = demoRecover
    and keccak = demoHash and txs = demoTxsRelayer and deployer = 1 and regAddr = 2
    and polAddr = 3 and q = 12]
  from t report_failure_demo have
    "unat (reputationScore (relayerInfo exRelayer2 12))
       = (if 10 < unat (reputationScore (relayerInfo exRelayer1 12))
          then unat (reputationScore (relayerInfo exRelayer1 12)) - 5
          else unat (reputationScore (relayerInfo exRelayer1 12)))"
    and "unat (intentsProcessed (relayerInfo exRelayer2 12))
       = unat (intentsProcessed (relayerInfo exRelayer1 12)) + 1"
    and l: "lastActive (relayerInfo exRelayer2 12) = 1700000070"
    by blast+
  with r0 p0 have r2: "unat (reputationScore (relayerInfo exRelayer2 12)) = 95"
    and p2: "unat (intentsProcessed (relayerInfo exRelayer2 12)) = 1"
    by simp_all
  have act: "isActive (relayerInfo (executor (run demoRecover demoHash 4 demoTxsRelayer (initWorld 1 2 3))) 12)"
    by (simp add: demo_run_relayer rel_defs)
  with t have "6 \<le> unat (reputationScore
               (relayerInfo (executor (run demoRecover demoHash 4 demoTxsRelayer (initWorld 1 2 3))) 12))
   \<and> unat (reputationScore
               (relayerInfo (executor (run demoRecover demoHash 4 demoTxsRelayer (initWorld 1 2 3))) 12))
        \<le> 200"
    by blast
  with act r0 r2 p2 l report_failure_demo report_success_demo show ?thesis by blast
qed

lemma report_failure_at_11:
  "updateRelayerReputation 12 4 1700000070 12 False (exReputation 11)
     = Inr ((exReputation 11)\<lparr>relayerInfo := (relayerInfo (exReputation 11))(12 :=
              (repInfo 11)\<lparr>intentsProcessed := 21, reputationScore := 6,
                            lastActive := 1700000070\<rparr>)\<rparr>)"
  by (simp add: updateRelayerReputation_def failure_at_11 exReputation_def rel_defs)
     (simp add: repInfo_def)

lemma report_failure_at_10:
  "updateRelayerReputation 12 4 1700000070 12 False (exReputation 10)
     = Inr ((exReputation 10)\<lparr>relayerInfo := (relayerInfo (exReputation 10))(12 :=
              (repInfo 10)\<lparr>intentsProcessed := 21, lastActive := 1700000070\<rparr>)\<rparr>)"
  by (simp add: updateRelayerReputation_def failure_at_10 exReputation_def rel_defs)
     (simp add: repInfo_def)

text \<open>
  Where C8 as stated fails: a failure is not "minus 5, floored at the lower bound". At
  reputation 10 a failure lowers nothing, so a floor would be 10; but at reputation 11 a
  failure gives 6, below 10. (And 6, the least value a registered relayer can reach, is no
  floor of the decrement either: reputations 7 to 10 are left as they are.)
\<close>

theorem reputation_failure_counterexample:
  "reputationScore (relayerInfo (exReputation 11) 12) = 11
   \<and> reputationScore (relayerInfo
        (state_after (exReputation 11)
           (updateRelayerReputation 12 4 1700000070 12 False (exReputation 11))) 12) = 6
   \<and> reputationScore (relayerInfo (exReputation 10) 12) = 10
   \<and> reputationScore (relayerInfo
        (state_after (exReputation 10)
           (updateRelayerReputation 12 4 1700000070 12 False (exReputation 10))) 12) = 10"
  by (simp add: report_failure_at_11 report_failure_at_10 state_after_def)
     (simp add: exReputation_def repInfo_def)

section \<open>Relayer selection\<close>

lemma selectLoop_total:
  assumes "\<forall>x\<in>set xs. isActive (infos x) \<longrightarrow> (\<exists>s. relayerScore now (infos x) = Inr s)"
  shows "\<exists>r. selectLoop now infos xs bs br = Inr r"
  using assms
proof (induction xs arbitrary: bs br)
  case Nil
  show ?case by simp
next
  case (Cons x xs)
  then have rest: "\<And>bs br. \<exists>r. selectLoop now infos xs bs br = Inr r" by simp
  show ?case
  proof (cases "isActive (infos x)")
    case False
    with rest show ?thesis by simp
  next
    case True
    with Cons.prems obtain s where "relayerScore now (infos x) = Inr s" by auto
    with True rest show ?thesis by simp
  qed
qed

text \<open>
  What the loop returns: the relayer it started with, when no active entry scores above
  the starting score; otherwise the first entry that attains the highest score.
\<close>

lemma selectLoop_char:
  assumes "selectLoop now infos xs bs br = Inr r"
  shows "(r = br \<and> (\<forall>x\<in>set xs. isActive (infos x) \<longrightarrow>
                      (\<exists>s. relayerScore now (infos x) = Inr s \<and> s \<le> bs)))
       \<or> (\<exists>pre post sc. xs = pre @ r # post \<and> isActive (infos r)
            \<and> relayerScore now (infos r) = Inr sc \<and> bs < sc
            \<and> (\<forall>x\<in>set pre. isActive (infos x) \<longrightarrow>
                  (\<exists>s. relayerScore now (infos x) = Inr s \<and> s < sc))
            \<and> (\<forall>x\<in>set post. isActive (infos x) \<longrightarrow>
                  (\<exists>s. relayerScore now (infos x) = Inr s \<and> s \<le> sc)))"
  using assms
proof (induction xs arbitrary: bs br)
  case Nil
  then show ?case by simp
next
  case (Cons x xs)
  show ?case
  proof (cases "isActive (infos x)")
    case False
    with Cons.prems have "selectLoop now infos xs bs br = Inr r" by simp
    from Cons.IH [OF this] show ?thesis
    proof
      assume "r = br \<and> (\<forall>x\<in>set xs. isActive (infos x) \<longrightarrow>
                      (\<exists>s. relayerScore now (infos x) = Inr s \<and> s \<le> bs))"
      with False show ?thesis by simp
    next
      assume "\<exists>pre post sc. xs = pre @ r # post \<and> isActive (infos r)
            \<and> relayerScore now (infos r) = Inr sc \<and> bs < sc
            \<and> (\<forall>x\<in>set pre. isActive (infos x) \<longrightarrow>
                  (\<exists>s. relayerScore now (infos x) = Inr s \<and> s < sc))
            \<and> (\<forall>x\<in>set post. isActive (infos x) \<longrightarrow>
                  (\<exists>s. relayerScore now (infos x) = Inr s \<and> s \<le> sc))"
      then obtain pre post sc where d: "xs = pre @ r # post" "isActive (infos r)"
        "relayerScore now (infos r) = Inr sc" "bs < sc"
        "\<forall>x\<in>set pre. isActive (infos x) \<longrightarrow> (\<exists>s. relayerScore now (infos x) = Inr s \<and> s < sc)"
        "\<forall>x\<in>set post. isActive (infos x) \<longrightarrow> (\<exists>s. relayerScore now (infos x) = Inr s \<and> s \<le> sc)"
        by blast
      from d(1) have "x # xs = (x # pre) @ r # post" by simp
      moreover from d(5) False
      have "\<forall>y\<in>set (x # pre). isActive (infos y) \<longrightarrow> (\<exists>s. relayerScore now (infos y) = Inr s \<and> s < sc)"
        by simp
      ultimately show ?thesis using d(2,3,4,6) by blast
    qed
  next
    case True
    with Cons.prems obtain sx where sx: "relayerScore now (infos x) = Inr sx"
      by (cases "relayerScore now (infos x)") simp_all
    show ?thesis
    proof (cases "bs < sx")
      case False
      with True sx Cons.prems have "selectLoop now infos xs bs br = Inr r" by simp
      from Cons.IH [OF this] show ?thesis
      proof
        assume "r = br \<and> (\<forall>x\<in>set xs. isActive (infos x) \<longrightarrow>
                      (\<exists>s. relayerScore now (infos x) = Inr s \<and> s \<le> bs))"
        with False sx show ?thesis by (simp add: not_less)
      next
        assume "\<exists>pre post sc. xs = pre @ r # post \<and> isActive (infos r)
            \<and> relayerScore now (infos r) = Inr sc \<and> bs < sc
            \<and> (\<forall>x\<in>set pre. isActive (infos x) \<longrightarrow>
                  (\<exists>s. relayerScore now (infos x) = Inr s \<and> s < sc))
            \<and> (\<forall>x\<in>set post. isActive (infos x) \<longrightarrow>
                  (\<exists>s. relayerScore now (infos x) = Inr s \<and> s \<le> sc))"
        then obtain pre post sc where d: "xs = pre @ r # post" "isActive (infos r)"
          "relayerScore now (infos r) = Inr sc" "bs < sc"
          "\<forall>x\<in>set pre. isActive (infos x) \<longrightarrow> (\<exists>s. relayerScore now (infos x) = Inr s \<and> s < sc)"
          "\<forall>x\<in>set post. isActive (infos x) \<longrightarrow> (\<exists>s. relayerScore now (infos x) = Inr s \<and> s \<le> sc)"
          by blast
        from d(1) have "x # xs = (x # pre) @ r # post" by simp
        moreover from False d(4) have "sx < sc" by simp
        with d(5) sx
        have "\<forall>y\<in>set (x # pre). isActive (infos y) \<longrightarrow> (\<exists>s. relayerScore now (infos y) = Inr s \<and> s < sc)"
          by simp
        ultimately show ?thesis using d(2,3,4,6) by blast
      qed
    next
      case bigger: True
      with True sx Cons.prems have "selectLoop now infos xs sx x = Inr r" by simp
      from Cons.IH [OF this] show ?thesis
      proof
        assume a: "r = x \<and> (\<forall>y\<in>set xs. isActive (infos y) \<longrightarrow>
                      (\<exists>s. relayerScore now (infos y) = Inr s \<and> s \<le> sx))"
        then have "x # xs = [] @ r # xs" by simp
        with a True sx bigger show ?thesis by (metis empty_iff empty_set)
      next
        assume "\<exists>pre post sc. xs = pre @ r # post \<and> isActive (infos r)
            \<and> relayerScore now (infos r) = Inr sc \<and> sx < sc
            \<and> (\<forall>x\<in>set pre. isActive (infos x) \<longrightarrow>
                  (\<exists>s. relayerScore now (infos x) = Inr s \<and> s < sc))
            \<and> (\<forall>x\<in>set post. isActive (infos x) \<longrightarrow>
                  (\<exists>s. relayerScore now (infos x) = Inr s \<and> s \<le> sc))"
        then obtain pre post sc where d: "xs = pre @ r # post" "isActive (infos r)"
          "relayerScore now (infos r) = Inr sc" "sx < sc"
          "\<forall>x\<in>set pre. isActive (infos x) \<longrightarrow> (\<exists>s. relayerScore now (infos x) = Inr s \<and> s < sc)"
          "\<forall>x\<in>set post. isActive (infos x) \<longrightarrow> (\<exists>s. relayerScore now (infos x) = Inr s \<and> s \<le> sc)"
          by blast
        from d(1) have "x # xs = (x # pre) @ r # post" by simp
        moreover from d(5) sx d(4)
        have "\<forall>y\<in>set (x # pre). isActive (infos y) \<longrightarrow> (\<exists>s. relayerScore now (infos y) = Inr s \<and> s < sc)"
          by simp
        moreover from bigger d(4) have "bs < sc" by simp
        ultimately show ?thesis using d(2,3,6) by blast
      qed
    qed
  qed
qed

lemma selectRelayer_Inr:
  assumes "selectRelayer now iid ex = Inr r"
  shows "r \<noteq> 0 \<and> (\<exists>pre post sc. activeRelayers ex = pre @ r # post
            \<and> isActive (relayerInfo ex r)
            \<and> relayerScore now (relayerInfo ex r) = Inr sc \<and> 0 < sc
            \<and> (\<forall>x\<in>set pre. isActive (relayerInfo ex x) \<longrightarrow>
                  (\<exists>s. relayerScore now (relayerInfo ex x) = Inr s \<and> s < sc))
            \<and> (\<forall>x\<in>set post. isActive (relayerInfo ex x) \<longrightarrow>
                  (\<exists>s. relayerScore now (relayerInfo ex x) = Inr s \<and> s \<le> sc)))"
proof -
  from assms have l: "selectLoop now (relayerInfo ex) (activeRelayers ex) 0 0 = Inr r"
    and nz: "r \<noteq> 0"
    by (auto simp: selectRelayer_def split: if_splits sum.splits)
  from selectLoop_char [OF l] nz show ?thesis by blast
qed

lemma selectRelayer_of_loop:
  "selectLoop now (relayerInfo ex) (activeRelayers ex) 0 0 = Inr r \<Longrightarrow> r \<noteq> 0 \<Longrightarrow>
   activeRelayers ex \<noteq> [] \<Longrightarrow> selectRelayer now iid ex = Inr r"
  by (simp add: selectRelayer_def)

lemma selectRelayer_exists:
  assumes z: "0 \<notin> set (activeRelayers ex)"
    and tot: "\<forall>x\<in>set (activeRelayers ex). isActive (relayerInfo ex x) \<longrightarrow>
                (\<exists>s. relayerScore now (relayerInfo ex x) = Inr s)"
    and pos: "x \<in> set (activeRelayers ex)" "isActive (relayerInfo ex x)"
      "relayerScore now (relayerInfo ex x) = Inr s" "0 < s"
  shows "\<exists>r. selectRelayer now iid ex = Inr r"
proof -
  from selectLoop_total [OF tot] obtain r where
    l: "selectLoop now (relayerInfo ex) (activeRelayers ex) 0 0 = Inr r" by blast
  from pos(1) have ne: "activeRelayers ex \<noteq> []" by auto
  from selectLoop_char [OF l] have "r \<noteq> 0"
  proof
    assume "r = 0 \<and> (\<forall>x\<in>set (activeRelayers ex). isActive (relayerInfo ex x) \<longrightarrow>
                      (\<exists>s. relayerScore now (relayerInfo ex x) = Inr s \<and> s \<le> 0))"
    with pos have "s \<le> 0" by auto
    with pos(4) show ?thesis by simp
  next
    assume "\<exists>pre post sc. activeRelayers ex = pre @ r # post \<and> isActive (relayerInfo ex r)
            \<and> relayerScore now (relayerInfo ex r) = Inr sc \<and> 0 < sc
            \<and> (\<forall>x\<in>set pre. isActive (relayerInfo ex x) \<longrightarrow>
                  (\<exists>s. relayerScore now (relayerInfo ex x) = Inr s \<and> s < sc))
            \<and> (\<forall>x\<in>set post. isActive (relayerInfo ex x) \<longrightarrow>
                  (\<exists>s. relayerScore now (relayerInfo ex x) = Inr s \<and> s \<le> sc))"
    then have "r \<in> set (activeRelayers ex)" by auto
    with z show ?thesis by auto
  qed
  from selectRelayer_of_loop [OF l this ne] show ?thesis by blast
qed

lemma selectRelayer_unique_best:
  assumes mem: "r \<in> set (activeRelayers ex)" and nz: "r \<noteq> 0"
    and act: "isActive (relayerInfo ex r)"
    and sc: "relayerScore now (relayerInfo ex r) = Inr sc" and pos: "0 < sc"
    and others: "\<forall>x\<in>set (activeRelayers ex). x \<noteq> r \<and> isActive (relayerInfo ex x) \<longrightarrow>
                (\<exists>s. relayerScore now (relayerInfo ex x) = Inr s \<and> s < sc)"
  shows "selectRelayer now iid ex = Inr r"
proof -
  have tot: "\<forall>x\<in>set (activeRelayers ex). isActive (relayerInfo ex x) \<longrightarrow>
                (\<exists>s. relayerScore now (relayerInfo ex x) = Inr s)"
  proof (intro ballI impI)
    fix x assume "x \<in> set (activeRelayers ex)" and "isActive (relayerInfo ex x)"
    with sc others show "\<exists>s. relayerScore now (relayerInfo ex x) = Inr s"
      by (cases "x = r") auto
  qed
  from selectLoop_total [OF tot] obtain r' where
    l: "selectLoop now (relayerInfo ex) (activeRelayers ex) 0 0 = Inr r'" by blast
  from mem have ne: "activeRelayers ex \<noteq> []" by auto
  from selectLoop_char [OF l] have "r' = r"
  proof
    assume "r' = 0 \<and> (\<forall>x\<in>set (activeRelayers ex). isActive (relayerInfo ex x) \<longrightarrow>
                      (\<exists>s. relayerScore now (relayerInfo ex x) = Inr s \<and> s \<le> 0))"
    with mem act sc have "sc \<le> 0" by auto
    with pos show ?thesis by simp
  next
    assume "\<exists>pre post sc. activeRelayers ex = pre @ r' # post \<and> isActive (relayerInfo ex r')
            \<and> relayerScore now (relayerInfo ex r') = Inr sc \<and> 0 < sc
            \<and> (\<forall>x\<in>set pre. isActive (relayerInfo ex x) \<longrightarrow>
                  (\<exists>s. relayerScore now (relayerInfo ex x) = Inr s \<and> s < sc))
            \<and> (\<forall>x\<in>set post. isActive (relayerInfo ex x) \<longrightarrow>
                  (\<exists>s. relayerScore now (relayerInfo ex x) = Inr s \<and> s \<le> sc))"
    then obtain pre post sc' where d: "activeRelayers ex = pre @ r' # post"
      "isActive (relayerInfo ex r')" "relayerScore now (relayerInfo ex r') = Inr sc'"
      "\<forall>x\<in>set pre. isActive (relayerInfo ex x) \<longrightarrow>
          (\<exists>s. relayerScore now (relayerInfo ex x) = Inr s \<and> s < sc')"
      "\<forall>x\<in>set post. isActive (relayerInfo ex x) \<longrightarrow>
          (\<exists>s. relayerScore now (relayerInfo ex x) = Inr s \<and> s \<le> sc')"
      by blast
    show ?thesis
    proof (rule ccontr)
      assume neq: "r' \<noteq> r"
      from d(1) have "r' \<in> set (activeRelayers ex)" by simp
      with others neq d(2,3) have lt: "sc' < sc" by auto
      from mem d(1) neq have "r \<in> set pre \<or> r \<in> set post" by auto
      with d(4,5) act sc have "sc \<le> sc'" by auto
      with lt show False by simp
    qed
  qed
  with l have "selectLoop now (relayerInfo ex) (activeRelayers ex) 0 0 = Inr r" by simp
  from selectRelayer_of_loop [OF this nz ne] show ?thesis .
qed

lemma selectRelayer_depends:
  "relayerInfo ex2 = relayerInfo ex \<Longrightarrow> activeRelayers ex2 = activeRelayers ex \<Longrightarrow>
   selectRelayer now iid2 ex2 = selectRelayer now iid ex"
  by (simp add: selectRelayer_def)

lemma checked_mul_fits:
  "unat a * unat b < 2 ^ 256 \<Longrightarrow> checked_mul a b = Inr (a * b) \<and> unat (a * b) = unat a * unat b"
  using unat_mult_lem [of a b] by (simp add: checked_mul_def)

lemma checked_add_fits_unat:
  "unat a + unat b < 2 ^ 256 \<Longrightarrow> checked_add a b = Inr (a + b) \<and> unat (a + b) = unat a + unat b"
  using unat_add_lem [of a b] by (simp add: checked_add_def)

lemma checked_sub_fits:
  "unat b \<le> unat a \<Longrightarrow> checked_sub a b = Inr (a - b) \<and> unat (a - b) = unat a - unat b"
  by (simp add: checked_sub_def unat_sub word_le_nat_alt)

text \<open>
  The code's score is the spec's score, for a record whose last activity is not in the
  future, whose reputation is at most 200 and whose success counter does not exceed the
  processed counter by more than checked arithmetic allows.
\<close>

lemma relayerScore_spec:
  assumes la: "unat (lastActive info) \<le> unat now"
    and rep: "unat (reputationScore info) \<le> 200"
    and su: "unat (successfulExecutions info) * 100 < 2 ^ 256"
  shows "\<exists>sc. relayerScore now info = Inr sc \<and> unat sc = specScore now info"
proof -
  let ?idle = "now - lastActive info"
  from checked_sub_fits [OF la]
  have i: "checked_sub now (lastActive info) = Inr ?idle"
    and iu: "unat ?idle = unat now - unat (lastActive info)" by simp_all
  let ?base = "if ?idle < ONE_HOUR then reputationScore info + 10 else reputationScore info"
  have "unat (reputationScore info) + unat (10::uint256) < 2 ^ 256" using rep by simp
  from checked_add_fits_unat [OF this]
  have a: "checked_add (reputationScore info) 10 = Inr (reputationScore info + 10)"
    and au: "unat (reputationScore info + 10) = unat (reputationScore info) + 10" by simp_all
  have bu: "unat ?base = unat (reputationScore info)
                   + (if unat now - unat (lastActive info) < 3600 then 10 else 0)"
    using au iu by (simp add: word_less_nat_alt ONE_HOUR_def)
  have bb: "unat ?base \<le> 210" using bu rep by (simp split: if_splits)
  have step1: "(if ?idle < ONE_HOUR then checked_add (reputationScore info) 10
                 else Inr (reputationScore info)) = Inr ?base"
    using a by simp
  have "unat (successfulExecutions info) * unat (100::uint256) < 2 ^ 256" using su by simp
  from checked_mul_fits [OF this]
  have m: "checked_mul (successfulExecutions info) 100 = Inr (successfulExecutions info * 100)"
    and mu: "unat (successfulExecutions info * 100) = unat (successfulExecutions info) * 100"
    by simp_all
  let ?rate = "successfulExecutions info * 100 div intentsProcessed info"
  have ru: "unat ?rate = unat (successfulExecutions info) * 100 div unat (intentsProcessed info)"
    by (simp add: unat_div mu)
  define nb where "nb = unat (reputationScore info)
                   + (if unat now - unat (lastActive info) < 3600 then 10 else 0)"
  define nr where "nr = unat (successfulExecutions info) * 100 div unat (intentsProcessed info)"
  from bu have bn: "unat ?base = nb" by (simp only: nb_def)
  from ru have rn: "unat ?rate = nr" by (simp only: nr_def)
  have cond: "(0 < intentsProcessed info \<and> ?rate < 80) \<longleftrightarrow> (0 < unat (intentsProcessed info) \<and> nr < 80)"
    using rn by (simp only: word_less_nat_alt) simp
  have spec: "specScore now info
      = (if 0 < unat (intentsProcessed info) \<and> nr < 80 then nb * nr div 100 else nb)"
    unfolding specScore_def Let_def nb_def nr_def ..
  show ?thesis
  proof (cases "0 < intentsProcessed info \<and> ?rate < 80")
    case False
    then have "relayerScore now info = Inr ?base"
      unfolding relayerScore_def by (simp only: i step1 m Let_def sum.case if_False if_True split: if_splits) auto
    moreover from False cond have "\<not> (0 < unat (intentsProcessed info) \<and> nr < 80)" by blast
    then have "specScore now info = nb" by (simp only: spec) simp
    ultimately show ?thesis using bn by simp
  next
    case True
    with cond have r80: "nr < 80" by simp
    from bb bn have "nb \<le> 210" by simp
    with r80 have "nb * nr \<le> 210 * 80"
      by (intro mult_mono) simp_all
    then have "unat ?base * unat ?rate < 2 ^ 256" by (simp add: bn rn)
    from checked_mul_fits [OF this]
    have p: "checked_mul ?base ?rate = Inr (?base * ?rate)"
      and pu: "unat (?base * ?rate) = nb * nr" by (simp_all only: bn rn)
    from True have "relayerScore now info = Inr (?base * ?rate div 100)"
      unfolding relayerScore_def by (simp only: i step1 m p Let_def sum.case if_True)
    moreover have "unat (?base * ?rate div 100) = nb * nr div 100"
      by (simp only: unat_div pu) simp
    moreover from True cond have "0 < unat (intentsProcessed info) \<and> nr < 80" by blast
    then have "specScore now info = nb * nr div 100" by (simp add: spec)
    ultimately show ?thesis by simp
  qed
qed


lemmas score_eval = relayerScore_def checked_sub_def checked_add_def checked_mul_def ONE_HOUR_def
  word_less_nat_alt word_le_nat_alt relayerRecord_def

lemma three_infos:
  "relayerInfo exThreeRelayers 12 = relayerRecord 12 100 0 1700003000"
  "relayerInfo exThreeRelayers 13 = relayerRecord 13 105 5 1700000000"
  "relayerInfo exThreeRelayers 14 = relayerRecord 14 105 5 1700000000"
  "activeRelayers exThreeRelayers = [12, 13, 14]"
  by (simp_all add: exThreeRelayers_def)

lemma three_active:
  "isActive (relayerRecord who rep n la)"
  by (simp add: relayerRecord_def)

lemma scores_early:
  "relayerScore 1700003500 (relayerRecord 12 100 0 1700003000) = Inr 110"
  "relayerScore 1700003500 (relayerRecord 13 105 5 1700000000) = Inr 115"
  "relayerScore 1700003500 (relayerRecord 14 105 5 1700000000) = Inr 115"
  by (simp_all add: score_eval)

lemma scores_late:
  "relayerScore 1700004000 (relayerRecord 12 100 0 1700003000) = Inr 110"
  "relayerScore 1700004000 (relayerRecord 13 105 5 1700000000) = Inr 105"
  "relayerScore 1700004000 (relayerRecord 14 105 5 1700000000) = Inr 105"
  by (simp_all add: score_eval)

lemma select_early: "selectRelayer 1700003500 77 exThreeRelayers = Inr 13"
  by (simp add: selectRelayer_def three_infos three_active scores_early word_less_nat_alt)

lemma select_late: "selectRelayer 1700004000 77 exThreeRelayers = Inr 12"
  by (simp add: selectRelayer_def three_infos three_active scores_late word_less_nat_alt)

lemma select_failed_relayer:
  "selectRelayer 1700000080 77 exRelayer2 = Inl (Require ''No suitable relayer found'')"
  by (simp add: selectRelayer_def rel_defs score_eval)


lemma selectLoop_no_better:
  assumes "\<forall>x\<in>set xs. isActive (infos x) \<longrightarrow>
             (\<exists>s. relayerScore now (infos x) = Inr s \<and> s \<le> bs)"
  shows "selectLoop now infos xs bs br = Inr br"
  using assms
proof (induction xs)
  case Nil
  show ?case by simp
next
  case (Cons x xs)
  then have rest: "selectLoop now infos xs bs br = Inr br" by simp
  show ?case
  proof (cases "isActive (infos x)")
    case False
    with rest show ?thesis by simp
  next
    case True
    with Cons.prems obtain s where sc: "relayerScore now (infos x) = Inr s" and "s \<le> bs" by auto
    then have "\<not> bs < s" by (simp add: not_less)
    with True rest sc show ?thesis by simp
  qed
qed

text \<open>The loop reads the directory through the active flags and the scores only.\<close>

lemma selectLoop_cong:
  assumes "\<forall>x\<in>set xs. isActive (infosb x) = isActive (infos x)
             \<and> (isActive (infos x) \<longrightarrow> relayerScore nowb (infosb x) = relayerScore now (infos x))"
  shows "selectLoop nowb infosb xs bs br = selectLoop now infos xs bs br"
  using assms
proof (induction xs arbitrary: bs br)
  case Nil
  show ?case by simp
next
  case (Cons x xs)
  then have rest: "\<And>bs br. selectLoop nowb infosb xs bs br = selectLoop now infos xs bs br"
    by simp
  from Cons.prems have a: "isActive (infosb x) = isActive (infos x)"
    and s: "isActive (infos x) \<longrightarrow> relayerScore nowb (infosb x) = relayerScore now (infos x)"
    by simp_all
  show ?case
  proof (cases "isActive (infos x)")
    case False
    with a rest show ?thesis by simp
  next
    case True
    with a s rest show ?thesis by (simp split: sum.splits)
  qed
qed

lemma selectLoop_unique_best:
  assumes mem: "b \<in> set (activeRelayers ex)"
    and act: "isActive (relayerInfo ex b)"
    and sc: "relayerScore now (relayerInfo ex b) = Inr best" and pos: "0 < best"
    and others: "\<forall>x\<in>set (activeRelayers ex). x \<noteq> b \<and> isActive (relayerInfo ex x) \<longrightarrow>
                (\<exists>s. relayerScore now (relayerInfo ex x) = Inr s \<and> s < best)"
  shows "selectLoop now (relayerInfo ex) (activeRelayers ex) 0 0 = Inr b"
proof -
  have tot: "\<forall>x\<in>set (activeRelayers ex). isActive (relayerInfo ex x) \<longrightarrow>
                (\<exists>s. relayerScore now (relayerInfo ex x) = Inr s)"
  proof (intro ballI impI)
    fix x assume "x \<in> set (activeRelayers ex)" and "isActive (relayerInfo ex x)"
    with sc others show "\<exists>s. relayerScore now (relayerInfo ex x) = Inr s"
      by (cases "x = b") auto
  qed
  from selectLoop_total [OF tot] obtain r' where
    l: "selectLoop now (relayerInfo ex) (activeRelayers ex) 0 0 = Inr r'" by blast
  from selectLoop_char [OF l] have "r' = b"
  proof
    assume "r' = 0 \<and> (\<forall>x\<in>set (activeRelayers ex). isActive (relayerInfo ex x) \<longrightarrow>
                      (\<exists>s. relayerScore now (relayerInfo ex x) = Inr s \<and> s \<le> 0))"
    with mem act sc have "best \<le> 0" by auto
    with pos show ?thesis by simp
  next
    assume "\<exists>pre post sc. activeRelayers ex = pre @ r' # post \<and> isActive (relayerInfo ex r')
            \<and> relayerScore now (relayerInfo ex r') = Inr sc \<and> 0 < sc
            \<and> (\<forall>x\<in>set pre. isActive (relayerInfo ex x) \<longrightarrow>
                  (\<exists>s. relayerScore now (relayerInfo ex x) = Inr s \<and> s < sc))
            \<and> (\<forall>x\<in>set post. isActive (relayerInfo ex x) \<longrightarrow>
                  (\<exists>s. relayerScore now (relayerInfo ex x) = Inr s \<and> s \<le> sc))"
    then obtain pre post sc' where d: "activeRelayers ex = pre @ r' # post"
      "isActive (relayerInfo ex r')" "relayerScore now (relayerInfo ex r') = Inr sc'"
      "\<forall>x\<in>set pre. isActive (relayerInfo ex x) \<longrightarrow>
          (\<exists>s. relayerScore now (relayerInfo ex x) = Inr s \<and> s < sc')"
      "\<forall>x\<in>set post. isActive (relayerInfo ex x) \<longrightarrow>
          (\<exists>s. relayerScore now (relayerInfo ex x) = Inr s \<and> s \<le> sc')"
      by blast
    show ?thesis
    proof (rule ccontr)
      assume neq: "r' \<noteq> b"
      from d(1) have "r' \<in> set (activeRelayers ex)" by simp
      with others neq d(2,3) have lt: "sc' < best" by auto
      from mem d(1) neq have "b \<in> set pre \<or> b \<in> set post" by auto
      with d(4,5) act sc have "best \<le> sc'" by auto
      with lt show False by simp
    qed
  qed
  with l show ?thesis by simp
qed

lemma selectRelayer_all_zero:
  assumes "activeRelayers ex \<noteq> []"
    and "\<forall>x\<in>set (activeRelayers ex). isActive (relayerInfo ex x) \<longrightarrow>
           relayerScore now (relayerInfo ex x) = Inr 0"
  shows "selectRelayer now iid ex = Inl (Require ''No suitable relayer found'')"
proof -
  from assms(2) have "\<forall>x\<in>set (activeRelayers ex). isActive (relayerInfo ex x) \<longrightarrow>
             (\<exists>s. relayerScore now (relayerInfo ex x) = Inr s \<and> s \<le> 0)"
    by simp
  from selectLoop_no_better [OF this]
  have "selectLoop now (relayerInfo ex) (activeRelayers ex) 0 0 = Inr 0" .
  with assms(1) show ?thesis by (simp add: selectRelayer_def)
qed

lemma selectRelayer_zero_address_best:
  assumes "0 \<in> set (activeRelayers ex)" and "isActive (relayerInfo ex 0)"
    and "relayerScore now (relayerInfo ex 0) = Inr best" and "0 < best"
    and "\<forall>x\<in>set (activeRelayers ex). x \<noteq> 0 \<and> isActive (relayerInfo ex x) \<longrightarrow>
                (\<exists>s. relayerScore now (relayerInfo ex x) = Inr s \<and> s < best)"
  shows "selectRelayer now iid ex = Inl (Require ''No suitable relayer found'')"
proof -
  from selectLoop_unique_best [OF assms]
  have "selectLoop now (relayerInfo ex) (activeRelayers ex) 0 0 = Inr 0" .
  moreover from assms(1) have "activeRelayers ex \<noteq> []" by auto
  ultimately show ?thesis by (simp add: selectRelayer_def)
qed

lemma selectRelayer_empty:
  "activeRelayers ex = [] \<Longrightarrow> selectRelayer now iid ex = Inl (Require ''No active relayers'')"
  by (simp add: selectRelayer_def)

lemma selectRelayer_same_scores:
  assumes "activeRelayers exb = activeRelayers ex"
    and "\<forall>x\<in>set (activeRelayers ex). isActive (relayerInfo exb x) = isActive (relayerInfo ex x)
           \<and> (isActive (relayerInfo ex x) \<longrightarrow>
                relayerScore nowb (relayerInfo exb x) = relayerScore now (relayerInfo ex x))"
  shows "selectRelayer nowb iidb exb = selectRelayer now iid ex"
proof -
  from selectLoop_cong [OF assms(2)]
  have "selectLoop nowb (relayerInfo exb) (activeRelayers ex) 0 0
          = selectLoop now (relayerInfo ex) (activeRelayers ex) 0 0" .
  with assms(1) show ?thesis by (simp add: selectRelayer_def)
qed

lemma zero_relayer_registered:
  "registerRelayer 0 1700000060 100000000000000000 100000000000000000 exRelayer0 = Inr exZeroRelayer"
  by (simp add: registerRelayer_def exZeroRelayer_def rel_defs)

lemma zero_relayer_infos:
  "activeRelayers exZeroRelayer = [0]"
  "isActive (relayerInfo exZeroRelayer 0)"
  "relayerScore 1700000080 (relayerInfo exZeroRelayer 0) = Inr 110"
  by (simp_all add: exZeroRelayer_def rel_defs score_eval)

lemma failed_relayer_infos:
  "activeRelayers exRelayer2 = [12]"
  "isActive (relayerInfo exRelayer2 12)"
  "relayerScore 1700000080 (relayerInfo exRelayer2 12) = Inr 0"
  by (simp_all add: rel_defs score_eval)

lemma scores_later:
  "relayerScore 1700004001 (relayerRecord 12 100 0 1700003000) = Inr 110"
  "relayerScore 1700004001 (relayerRecord 13 105 5 1700000000) = Inr 105"
  "relayerScore 1700004001 (relayerRecord 14 105 5 1700000000) = Inr 105"
  by (simp_all add: score_eval)

text \<open>
  C9 as the code has it. \<open>selectRelayer\<close> does not read the intent id, and it reads the
  directory only through \<open>activeRelayers\<close>, the active flags and the scores of the active
  entries: two calls on the same list with the same flags and the same scores give the same
  result. On an empty list it reverts with \<open>No active relayers\<close>. When it returns relayer
  \<open>r\<close>, then \<open>r\<close> is not the zero address and is an active entry of \<open>activeRelayers\<close> with
  a positive score, every active entry before it scores strictly less and every active
  entry after it scores at most as much: the first entry with the highest score. It returns
  some relayer whenever the zero address is not an entry of the list, the scores of the
  active entries compute without an arithmetic panic, and one of them is positive; and an
  active entry other than the zero address, with a positive score strictly above every other
  active entry's score, is the one selected. When the list is not empty and every active
  entry scores 0, and when the active entry strictly above all others is the zero address,
  it reverts with \<open>No suitable relayer found\<close>: the loop starts from best score 0 and best
  relayer zero, and the zero address means that none was found. The score is the spec's
  formula \<open>specScore\<close>, for a relayer last active no later than now, with reputation at
  most 200 and \<open>successfulExecutions * 100\<close> within a \<open>uint256\<close>.
\<close>

theorem selectRelayer_first_highest:
  "(selectRelayer now iid ex = Inr r
      \<longrightarrow> r \<noteq> 0 \<and> (\<exists>pre post sc. activeRelayers ex = pre @ r # post
            \<and> isActive (relayerInfo ex r)
            \<and> relayerScore now (relayerInfo ex r) = Inr sc \<and> 0 < sc
            \<and> (\<forall>x\<in>set pre. isActive (relayerInfo ex x) \<longrightarrow>
                  (\<exists>s. relayerScore now (relayerInfo ex x) = Inr s \<and> s < sc))
            \<and> (\<forall>x\<in>set post. isActive (relayerInfo ex x) \<longrightarrow>
                  (\<exists>s. relayerScore now (relayerInfo ex x) = Inr s \<and> s \<le> sc))))
   \<and> (0 \<notin> set (activeRelayers ex)
        \<and> (\<forall>x\<in>set (activeRelayers ex). isActive (relayerInfo ex x) \<longrightarrow>
                (\<exists>s. relayerScore now (relayerInfo ex x) = Inr s))
        \<and> (\<exists>x\<in>set (activeRelayers ex). isActive (relayerInfo ex x)
                \<and> (\<exists>s. relayerScore now (relayerInfo ex x) = Inr s \<and> 0 < s))
      \<longrightarrow> (\<exists>r'. selectRelayer now iid ex = Inr r'))
   \<and> (b \<in> set (activeRelayers ex) \<and> b \<noteq> 0 \<and> isActive (relayerInfo ex b)
        \<and> relayerScore now (relayerInfo ex b) = Inr best \<and> 0 < best
        \<and> (\<forall>x\<in>set (activeRelayers ex). x \<noteq> b \<and> isActive (relayerInfo ex x) \<longrightarrow>
                (\<exists>s. relayerScore now (relayerInfo ex x) = Inr s \<and> s < best))
      \<longrightarrow> selectRelayer now iid ex = Inr b)
   \<and> (activeRelayers ex = []
      \<longrightarrow> selectRelayer now iid ex = Inl (Require ''No active relayers''))
   \<and> (activeRelayers ex \<noteq> []
        \<and> (\<forall>x\<in>set (activeRelayers ex). isActive (relayerInfo ex x) \<longrightarrow>
                relayerScore now (relayerInfo ex x) = Inr 0)
      \<longrightarrow> selectRelayer now iid ex = Inl (Require ''No suitable relayer found''))
   \<and> (0 \<in> set (activeRelayers ex) \<and> isActive (relayerInfo ex 0)
        \<and> relayerScore now (relayerInfo ex 0) = Inr best \<and> 0 < best
        \<and> (\<forall>x\<in>set (activeRelayers ex). x \<noteq> 0 \<and> isActive (relayerInfo ex x) \<longrightarrow>
                (\<exists>s. relayerScore now (relayerInfo ex x) = Inr s \<and> s < best))
      \<longrightarrow> selectRelayer now iid ex = Inl (Require ''No suitable relayer found''))
   \<and> (activeRelayers exb = activeRelayers ex
        \<and> (\<forall>x\<in>set (activeRelayers ex).
              isActive (relayerInfo exb x) = isActive (relayerInfo ex x)
              \<and> (isActive (relayerInfo ex x) \<longrightarrow>
                    relayerScore nowb (relayerInfo exb x) = relayerScore now (relayerInfo ex x)))
      \<longrightarrow> selectRelayer nowb iidb exb = selectRelayer now iid ex)
   \<and> (unat (lastActive info) \<le> unat now \<and> unat (reputationScore info) \<le> 200
        \<and> unat (successfulExecutions info) * 100 < 2 ^ 256
      \<longrightarrow> (\<exists>s. relayerScore now info = Inr s \<and> unat s = specScore now info))"
proof (intro conjI impI)
  assume "selectRelayer now iid ex = Inr r"
  from selectRelayer_Inr [OF this]
  show "r \<noteq> 0" and "\<exists>pre post sc. activeRelayers ex = pre @ r # post
            \<and> isActive (relayerInfo ex r)
            \<and> relayerScore now (relayerInfo ex r) = Inr sc \<and> 0 < sc
            \<and> (\<forall>x\<in>set pre. isActive (relayerInfo ex x) \<longrightarrow>
                  (\<exists>s. relayerScore now (relayerInfo ex x) = Inr s \<and> s < sc))
            \<and> (\<forall>x\<in>set post. isActive (relayerInfo ex x) \<longrightarrow>
                  (\<exists>s. relayerScore now (relayerInfo ex x) = Inr s \<and> s \<le> sc))"
    by blast+
next
  assume h: "0 \<notin> set (activeRelayers ex)
        \<and> (\<forall>x\<in>set (activeRelayers ex). isActive (relayerInfo ex x) \<longrightarrow>
                (\<exists>s. relayerScore now (relayerInfo ex x) = Inr s))
        \<and> (\<exists>x\<in>set (activeRelayers ex). isActive (relayerInfo ex x)
                \<and> (\<exists>s. relayerScore now (relayerInfo ex x) = Inr s \<and> 0 < s))"
  then obtain x s where "x \<in> set (activeRelayers ex)" "isActive (relayerInfo ex x)"
    "relayerScore now (relayerInfo ex x) = Inr s" "0 < s" by blast
  moreover from h have "0 \<notin> set (activeRelayers ex)"
    and "\<forall>x\<in>set (activeRelayers ex). isActive (relayerInfo ex x) \<longrightarrow>
                (\<exists>s. relayerScore now (relayerInfo ex x) = Inr s)"
    by simp_all
  ultimately show "\<exists>r'. selectRelayer now iid ex = Inr r'"
    by (rule selectRelayer_exists [rotated 2])
next
  assume "b \<in> set (activeRelayers ex) \<and> b \<noteq> 0 \<and> isActive (relayerInfo ex b)
        \<and> relayerScore now (relayerInfo ex b) = Inr best \<and> 0 < best
        \<and> (\<forall>x\<in>set (activeRelayers ex). x \<noteq> b \<and> isActive (relayerInfo ex x) \<longrightarrow>
                (\<exists>s. relayerScore now (relayerInfo ex x) = Inr s \<and> s < best))"
  then have m: "b \<in> set (activeRelayers ex)" and nz: "b \<noteq> 0"
    and act: "isActive (relayerInfo ex b)"
    and sc: "relayerScore now (relayerInfo ex b) = Inr best" and pos: "0 < best"
    and others: "\<forall>x\<in>set (activeRelayers ex). x \<noteq> b \<and> isActive (relayerInfo ex x) \<longrightarrow>
                (\<exists>s. relayerScore now (relayerInfo ex x) = Inr s \<and> s < best)"
    by simp_all
  from selectRelayer_unique_best [OF m nz act sc pos others]
  show "selectRelayer now iid ex = Inr b" .
next
  assume "activeRelayers ex = []"
  then show "selectRelayer now iid ex = Inl (Require ''No active relayers'')"
    by (rule selectRelayer_empty)
next
  assume "activeRelayers ex \<noteq> []
        \<and> (\<forall>x\<in>set (activeRelayers ex). isActive (relayerInfo ex x) \<longrightarrow>
                relayerScore now (relayerInfo ex x) = Inr 0)"
  then have "activeRelayers ex \<noteq> []"
    and "\<forall>x\<in>set (activeRelayers ex). isActive (relayerInfo ex x) \<longrightarrow>
                relayerScore now (relayerInfo ex x) = Inr 0"
    by simp_all
  then show "selectRelayer now iid ex = Inl (Require ''No suitable relayer found'')"
    by (rule selectRelayer_all_zero)
next
  assume "0 \<in> set (activeRelayers ex) \<and> isActive (relayerInfo ex 0)
        \<and> relayerScore now (relayerInfo ex 0) = Inr best \<and> 0 < best
        \<and> (\<forall>x\<in>set (activeRelayers ex). x \<noteq> 0 \<and> isActive (relayerInfo ex x) \<longrightarrow>
                (\<exists>s. relayerScore now (relayerInfo ex x) = Inr s \<and> s < best))"
  then have "0 \<in> set (activeRelayers ex)" and "isActive (relayerInfo ex 0)"
    and "relayerScore now (relayerInfo ex 0) = Inr best" and "0 < best"
    and "\<forall>x\<in>set (activeRelayers ex). x \<noteq> 0 \<and> isActive (relayerInfo ex x) \<longrightarrow>
                (\<exists>s. relayerScore now (relayerInfo ex x) = Inr s \<and> s < best)"
    by simp_all
  then show "selectRelayer now iid ex = Inl (Require ''No suitable relayer found'')"
    by (rule selectRelayer_zero_address_best)
next
  assume "activeRelayers exb = activeRelayers ex
        \<and> (\<forall>x\<in>set (activeRelayers ex).
              isActive (relayerInfo exb x) = isActive (relayerInfo ex x)
              \<and> (isActive (relayerInfo ex x) \<longrightarrow>
                    relayerScore nowb (relayerInfo exb x) = relayerScore now (relayerInfo ex x)))"
  then have "activeRelayers exb = activeRelayers ex"
    and "\<forall>x\<in>set (activeRelayers ex).
              isActive (relayerInfo exb x) = isActive (relayerInfo ex x)
              \<and> (isActive (relayerInfo ex x) \<longrightarrow>
                    relayerScore nowb (relayerInfo exb x) = relayerScore now (relayerInfo ex x))"
    by simp_all
  then show "selectRelayer nowb iidb exb = selectRelayer now iid ex"
    by (rule selectRelayer_same_scores)
next
  assume "unat (lastActive info) \<le> unat now \<and> unat (reputationScore info) \<le> 200
        \<and> unat (successfulExecutions info) * 100 < 2 ^ 256"
  then show "\<exists>s. relayerScore now info = Inr s \<and> unat s = specScore now info"
    by (intro relayerScore_spec) simp_all
qed

text \<open>
  The witness. On the three relayers at 1700004000, relayer 12 scores 110 and the two others
  105: 12 is selected, whatever the intent id, and also one second later, when the three
  scores are the same. At 1700003500 relayers 13 and 14 tie at 115: some relayer is
  selected, and the code's score of relayer 13 is the spec's. The freshly deployed executor
  has no relayer and the call reverts with \<open>No active relayers\<close>. In \<open>exRelayer2\<close> the one
  active relayer scores 0, and in \<open>exZeroRelayer\<close> the one active relayer is the zero
  address, with score 110: both calls revert with \<open>No suitable relayer found\<close>.
\<close>

theorem selectRelayer_first_highest_witness:
  "selectRelayer 1700004000 77 exThreeRelayers = Inr 12
   \<and> relayerScore 1700004000 (relayerInfo exThreeRelayers 12) = Inr 110
   \<and> relayerScore 1700004000 (relayerInfo exThreeRelayers 13) = Inr 105
   \<and> relayerScore 1700004000 (relayerInfo exThreeRelayers 14) = Inr 105
   \<and> selectRelayer 1700004000 5 exThreeRelayers = selectRelayer 1700004000 77 exThreeRelayers
   \<and> selectRelayer 1700004001 5 exThreeRelayers = selectRelayer 1700004000 77 exThreeRelayers
   \<and> (\<exists>r'. selectRelayer 1700003500 77 exThreeRelayers = Inr r')
   \<and> (\<exists>s. relayerScore 1700003500 (relayerInfo exThreeRelayers 13) = Inr s
          \<and> unat s = specScore 1700003500 (relayerInfo exThreeRelayers 13))
   \<and> specScore 1700003500 (relayerInfo exThreeRelayers 13) = 115
   \<and> selectRelayer 1700000080 77 demoEx0 = Inl (Require ''No active relayers'')
   \<and> selectRelayer 1700000080 77 exRelayer2 = Inl (Require ''No suitable relayer found'')
   \<and> selectRelayer 1700000080 77 exZeroRelayer = Inl (Require ''No suitable relayer found'')"
proof -
  note late = selectRelayer_first_highest [where now = 1700004000 and iid = 77
    and ex = exThreeRelayers and b = 12 and best = 110 and exb = exThreeRelayers and iidb = 5
    and nowb = 1700004000]
  note later = selectRelayer_first_highest [where now = 1700004000 and iid = 77
    and ex = exThreeRelayers and exb = exThreeRelayers and iidb = 5 and nowb = 1700004001]
  note early = selectRelayer_first_highest [where now = 1700003500 and iid = 77
    and ex = exThreeRelayers and info = "relayerInfo exThreeRelayers 13"]
  note fresh = selectRelayer_first_highest [where now = 1700000080 and iid = 77
    and ex = demoEx0]
  note failed = selectRelayer_first_highest [where now = 1700000080 and iid = 77
    and ex = exRelayer2]
  note zero = selectRelayer_first_highest [where now = 1700000080 and iid = 77
    and ex = exZeroRelayer and best = 110]
  note rest = conjunct2
  have h1: "12 \<in> set (activeRelayers exThreeRelayers) \<and> (12 :: address) \<noteq> 0
      \<and> isActive (relayerInfo exThreeRelayers 12)
      \<and> relayerScore 1700004000 (relayerInfo exThreeRelayers 12) = Inr 110 \<and> (0 :: uint256) < 110
      \<and> (\<forall>x\<in>set (activeRelayers exThreeRelayers). x \<noteq> 12 \<and> isActive (relayerInfo exThreeRelayers x) \<longrightarrow>
            (\<exists>s. relayerScore 1700004000 (relayerInfo exThreeRelayers x) = Inr s \<and> s < 110))"
    by (simp add: three_infos three_active scores_late)
  from late [THEN rest, THEN rest, THEN conjunct1, THEN mp, OF h1]
  have a: "selectRelayer 1700004000 77 exThreeRelayers = Inr 12" .
  have hd: "activeRelayers exThreeRelayers = activeRelayers exThreeRelayers
      \<and> (\<forall>x\<in>set (activeRelayers exThreeRelayers).
            isActive (relayerInfo exThreeRelayers x) = isActive (relayerInfo exThreeRelayers x)
            \<and> (isActive (relayerInfo exThreeRelayers x) \<longrightarrow>
                  relayerScore 1700004000 (relayerInfo exThreeRelayers x)
                    = relayerScore 1700004000 (relayerInfo exThreeRelayers x)))"
    by simp
  from late [THEN rest, THEN rest, THEN rest, THEN rest, THEN rest, THEN rest,
      THEN conjunct1, THEN mp, OF hd]
  have d: "selectRelayer 1700004000 5 exThreeRelayers
      = selectRelayer 1700004000 77 exThreeRelayers" .
  have hl: "activeRelayers exThreeRelayers = activeRelayers exThreeRelayers
      \<and> (\<forall>x\<in>set (activeRelayers exThreeRelayers).
            isActive (relayerInfo exThreeRelayers x) = isActive (relayerInfo exThreeRelayers x)
            \<and> (isActive (relayerInfo exThreeRelayers x) \<longrightarrow>
                  relayerScore 1700004001 (relayerInfo exThreeRelayers x)
                    = relayerScore 1700004000 (relayerInfo exThreeRelayers x)))"
    by (simp add: three_infos scores_late scores_later)
  from later [THEN rest, THEN rest, THEN rest, THEN rest, THEN rest, THEN rest,
      THEN conjunct1, THEN mp, OF hl]
  have l: "selectRelayer 1700004001 5 exThreeRelayers
      = selectRelayer 1700004000 77 exThreeRelayers" .
  have h2: "0 \<notin> set (activeRelayers exThreeRelayers)
        \<and> (\<forall>x\<in>set (activeRelayers exThreeRelayers). isActive (relayerInfo exThreeRelayers x) \<longrightarrow>
                (\<exists>s. relayerScore 1700003500 (relayerInfo exThreeRelayers x) = Inr s))
        \<and> (\<exists>x\<in>set (activeRelayers exThreeRelayers). isActive (relayerInfo exThreeRelayers x)
                \<and> (\<exists>s. relayerScore 1700003500 (relayerInfo exThreeRelayers x) = Inr s \<and> 0 < s))"
    by (simp add: three_infos three_active scores_early)
  from early [THEN rest, THEN conjunct1, THEN mp, OF h2]
  have e: "\<exists>r'. selectRelayer 1700003500 77 exThreeRelayers = Inr r'" .
  have h3: "unat (lastActive (relayerInfo exThreeRelayers 13)) \<le> unat (1700003500 :: uint256)
      \<and> unat (reputationScore (relayerInfo exThreeRelayers 13)) \<le> 200
      \<and> unat (successfulExecutions (relayerInfo exThreeRelayers 13)) * 100 < 2 ^ 256"
    by (simp add: three_infos relayerRecord_def)
  from early [THEN rest, THEN rest, THEN rest, THEN rest, THEN rest, THEN rest, THEN rest,
      THEN mp, OF h3]
  have s: "\<exists>s. relayerScore 1700003500 (relayerInfo exThreeRelayers 13) = Inr s
          \<and> unat s = specScore 1700003500 (relayerInfo exThreeRelayers 13)" .
  have v: "specScore 1700003500 (relayerInfo exThreeRelayers 13) = 115"
    by (simp add: specScore_def three_infos relayerRecord_def)
  have h4: "activeRelayers demoEx0 = []"
    by (simp add: rel_defs)
  from fresh [THEN rest, THEN rest, THEN rest, THEN conjunct1, THEN mp, OF h4]
  have n: "selectRelayer 1700000080 77 demoEx0 = Inl (Require ''No active relayers'')" .
  have h5: "activeRelayers exRelayer2 \<noteq> []
        \<and> (\<forall>x\<in>set (activeRelayers exRelayer2). isActive (relayerInfo exRelayer2 x) \<longrightarrow>
                relayerScore 1700000080 (relayerInfo exRelayer2 x) = Inr 0)"
    by (simp add: failed_relayer_infos)
  from failed [THEN rest, THEN rest, THEN rest, THEN rest, THEN conjunct1, THEN mp, OF h5]
  have f: "selectRelayer 1700000080 77 exRelayer2
      = Inl (Require ''No suitable relayer found'')" .
  have h6: "0 \<in> set (activeRelayers exZeroRelayer) \<and> isActive (relayerInfo exZeroRelayer 0)
        \<and> relayerScore 1700000080 (relayerInfo exZeroRelayer 0) = Inr 110 \<and> (0 :: uint256) < 110
        \<and> (\<forall>x\<in>set (activeRelayers exZeroRelayer). x \<noteq> 0 \<and> isActive (relayerInfo exZeroRelayer x) \<longrightarrow>
                (\<exists>s. relayerScore 1700000080 (relayerInfo exZeroRelayer x) = Inr s \<and> s < 110))"
    by (simp add: zero_relayer_infos)
  from zero [THEN rest, THEN rest, THEN rest, THEN rest, THEN rest, THEN conjunct1, THEN mp,
      OF h6]
  have z: "selectRelayer 1700000080 77 exZeroRelayer
      = Inl (Require ''No suitable relayer found'')" .
  from a d l e s v n f z show ?thesis by (simp add: three_infos scores_late)
qed

text \<open>
  Where C9 as stated fails. The directory \<open>exRelayer2\<close> holds one active relayer, whose one
  processed intent failed: its score is \<open>(95 + 10) * 0 / 100 = 0\<close>, no score exceeds the
  starting best score 0, and \<open>selectRelayer\<close> reverts instead of returning the relayer with
  the highest score.
\<close>

theorem selectRelayer_counterexample:
  "activeRelayers exRelayer2 = [12] \<and> isActive (relayerInfo exRelayer2 12)
   \<and> relayerScore 1700000080 (relayerInfo exRelayer2 12) = Inr 0
   \<and> selectRelayer 1700000080 77 exRelayer2 = Inl (Require ''No suitable relayer found'')"
  using failed_relayer_infos select_failed_relayer by simp

end
